theory Spec2Isabelle
  imports Main "HOL-Library.Sublist"
begin

section \<open>Values, strings and exceptions\<close>

text \<open>
  The program is \<^verbatim>\<open>src/main.py\<close>: it loads one spreadsheet per warehouse with pandas,
  tags and merges the tables, writes the result and restyles the written file with
  openpyxl. The embedding follows the source function by function. What the source takes
  from the operating system or from a library (the host name, \<^verbatim>\<open>os.name\<close>, whether a path
  exists, what the spreadsheet parser answers) is a parameter of the model.

  A cell holds no value, a string, an integer or a boolean. Floating-point and date cells
  are left out of the model. Strings are \<^typ>\<open>string\<close>: one character per code point, which is
  what Python's \<^verbatim>\<open>len\<close> counts on ASCII text.
\<close>

datatype cell_value = VNone | VStr string | VInt int | VBool bool

text \<open>A raised Python exception: its class name and its message (what \<^verbatim>\<open>str(e)\<close> prints).\<close>

datatype exn = Exn (exn_class: string) (exn_msg: string)

text \<open>\<^verbatim>\<open>str.upper\<close> on ASCII letters; every other character is kept.\<close>

definition upper_char :: "char \<Rightarrow> char" where
  "upper_char c =
     (case map_of (zip ''abcdefghijklmnopqrstuvwxyz'' ''ABCDEFGHIJKLMNOPQRSTUVWXYZ'') c of
        Some u \<Rightarrow> u
      | None \<Rightarrow> c)"

definition upper :: "string \<Rightarrow> string" where
  "upper s = map upper_char s"

section \<open>Tables\<close>

text \<open>
  A pandas \<^verbatim>\<open>DataFrame\<close>: the column names in order, and the rows in order, each row with
  its index label and its cells by column name. A row is read only at the names listed in
  \<open>columns\<close>. Column names are unique in every table the loader produces
  (\<^verbatim>\<open>read_excel\<close> renames a repeated header), which \<open>wf_df\<close> records.
\<close>

type_synonym row = "string \<Rightarrow> cell_value"

record dataframe =
  columns :: "string list"
  rows :: "(int \<times> row) list"

definition wf_df :: "dataframe \<Rightarrow> bool" where
  "wf_df df = distinct (columns df)"

text \<open>
  \<^verbatim>\<open>df[col] = v\<close> with a scalar \<open>v\<close>: every row gets \<open>v\<close> in that column; an existing column
  keeps its place, a new one is appended last.
\<close>

definition df_setitem :: "dataframe \<Rightarrow> string \<Rightarrow> cell_value \<Rightarrow> dataframe" where
  "df_setitem df col v =
     df\<lparr>columns := (if col \<in> set (columns df) then columns df else columns df @ [col]),
        rows := map (\<lambda>(i, r). (i, r(col := v))) (rows df)\<rparr>"

text \<open>
  \<^verbatim>\<open>pd.concat(frames, ignore_index=True)\<close>: the columns are the union of the frames' columns
  in order of first appearance, the rows are the frames' rows in order, a cell of a column
  the row's frame does not have is missing (\<open>VNone\<close>), and the index is renumbered from 0.
  An empty list of frames raises \<^verbatim>\<open>ValueError\<close>.
\<close>

definition add_column :: "string \<Rightarrow> string list \<Rightarrow> string list" where
  "add_column c acc = (if c \<in> set acc then acc else acc @ [c])"

definition union_columns :: "dataframe list \<Rightarrow> string list" where
  "union_columns dfs = fold (\<lambda>df acc. fold add_column (columns df) acc) dfs []"

definition reindex_row :: "string list \<Rightarrow> row \<Rightarrow> row" where
  "reindex_row cols r = (\<lambda>c. if c \<in> set cols then r c else VNone)"

definition frame_rows :: "dataframe \<Rightarrow> row list" where
  "frame_rows df = map (\<lambda>(i, r). reindex_row (columns df) r) (rows df)"

definition renumber :: "row list \<Rightarrow> (int \<times> row) list" where
  "renumber rs = zip (map int [0..<length rs]) rs"

definition pd_concat :: "dataframe list \<Rightarrow> exn + dataframe" where
  "pd_concat dfs =
     (if dfs = [] then Inl (Exn ''ValueError'' ''No objects to concatenate'')
      else Inr \<lparr>columns = union_columns dfs,
                rows = renumber (concat (map frame_rows dfs))\<rparr>)"

section \<open>Merging the inventories\<close>

text \<open>
  \<^verbatim>\<open>merge_inventories\<close> writes into the tables it is given, and the list it concatenates
  holds the same objects. The tables therefore live in a store, and the dictionary maps a
  warehouse name to the address of its table. A Python \<^verbatim>\<open>dict\<close> iterates in insertion
  order: it is a list of entries.
\<close>

type_synonym addr = nat
type_synonym store = "addr \<Rightarrow> dataframe"

definition bodega_label :: "string \<Rightarrow> string" where
  "bodega_label warehouse =
     (if upper warehouse = ''OPL'' then ''Bodega OPL''
      else if upper warehouse = ''E'' then ''Bodega E''
      else if upper warehouse = ''MOBU'' then ''Bodegas MOBU''
      else warehouse)"

text \<open>The loop of lines 168 to 177: tag the table in place, then append it to the list.\<close>

fun tag_tables :: "(string \<times> addr) list \<Rightarrow> store \<Rightarrow> addr list \<Rightarrow> store \<times> addr list" where
  "tag_tables [] s merged_list = (s, merged_list)"
| "tag_tables ((warehouse, df) # rest) s merged_list =
     tag_tables rest
       (s(df := df_setitem (s df) ''Bodega'' (VStr (bodega_label warehouse))))
       (merged_list @ [df])"

definition merge_inventories :: "store \<Rightarrow> (string \<times> addr) list \<Rightarrow> store \<times> (exn + dataframe option)" where
  "merge_inventories s inventory_dict =
     (case tag_tables inventory_dict s [] of
        (s', merged_list) \<Rightarrow>
          if merged_list \<noteq> [] then
            (case pd_concat (map s' merged_list) of
               Inl e \<Rightarrow> (s', Inl e)
             | Inr merged_df \<Rightarrow> (s', Inr (Some merged_df)))
          else (s', Inr None))"

text \<open>
  Two entries of a dictionary may hold the same table. \<open>last_key d a\<close> is the key of the
  last entry of \<open>d\<close> that holds the table at address \<open>a\<close>: the one whose label the table
  carries when the loop is over.
\<close>

fun last_key :: "(string \<times> addr) list \<Rightarrow> addr \<Rightarrow> string option" where
  "last_key [] a = None"
| "last_key ((w, b) # rest) a =
     (case last_key rest a of Some w' \<Rightarrow> Some w' | None \<Rightarrow> if b = a then Some w else None)"

section \<open>Host name and paths\<close>

text \<open>
  \<^verbatim>\<open>str.endswith\<close>, and \<^verbatim>\<open>str.replace(old, new)\<close>: every occurrence of \<open>old\<close>, found from the
  left and without overlap, becomes \<open>new\<close>. With an empty \<open>old\<close> Python puts \<open>new\<close> before
  every character and at the end.
\<close>

definition endswith :: "string \<Rightarrow> string \<Rightarrow> bool" where
  "endswith s suf = suffix suf s"

function replace :: "string \<Rightarrow> string \<Rightarrow> string \<Rightarrow> string" where
  "replace s old new =
     (if old = [] then new @ concat (map (\<lambda>c. c # new) s)
      else if s = [] then []
      else if prefix old s then new @ replace (drop (length old) s) old new
      else hd s # replace (tl s) old new)"
  by pat_completeness auto
termination
  by (relation "measure (\<lambda>(s, old, new). length s)") auto

declare replace.simps [simp del]

text \<open>Lines 12 to 16. The argument is what \<^verbatim>\<open>socket.gethostname()\<close> answers.\<close>

definition get_clean_hostname :: "string \<Rightarrow> string" where
  "get_clean_hostname gethostname =
     (if endswith gethostname ''.local'' then replace gethostname ''.local'' []
      else gethostname)"

text \<open>The backslash of the Windows paths.\<close>

definition bslash :: char where
  "bslash = CHR 0x5C"

text \<open>Lines 18 to 27. The first argument is \<^verbatim>\<open>os.name\<close>.\<close>

definition get_base_output_path :: "string \<Rightarrow> string \<Rightarrow> string option" where
  "get_base_output_path os_name gethostname =
     (if os_name = ''nt'' then
        Some (''C:'' @ [bslash] @ ''Users'' @ [bslash] @ ''josemaria'' @ [bslash] @ ''Downloads'')
      else
        (let hostname = get_clean_hostname gethostname in
         if hostname = ''JM-MBP'' then Some ''/Users/j.m./Downloads''
         else if hostname = ''JM-MS'' then Some ''/Users/jm/Downloads''
         else None))"

text \<open>
  The suffix rule in the words of the specification: one trailing \<^verbatim>\<open>.local\<close> is cut off,
  nothing else is touched.
\<close>

definition strip_local_suffix :: "string \<Rightarrow> string" where
  "strip_local_suffix hostname =
     (if endswith hostname ''.local'' then take (length hostname - length ''.local'') hostname
      else hostname)"

text \<open>Lines 29 to 51.\<close>

definition nt_share :: string where
  "nt_share = [bslash, bslash] @ ''192.168.10.18'' @ [bslash] @ ''Bodega General'' @ [bslash] @ ''LIVSMART''"

definition get_base_path :: "string \<Rightarrow> string \<Rightarrow> string option" where
  "get_base_path os_name warehouse =
     (if os_name = ''nt'' then
        (if upper warehouse = ''OPL'' then
           Some (nt_share @ [bslash] @ ''BODEGA OPL'' @ [bslash] @ ''STOCK ACTUALIZADO - OPL'')
         else if upper warehouse = ''E'' then
           Some (nt_share @ [bslash] @ ''BODEGA E'' @ [bslash] @ ''STOCK ACTUALIZADO - BODEGA E'')
         else if upper warehouse = ''MOBU'' then
           Some (nt_share @ [bslash] @ ''BODEGAS MOBU'' @ [bslash] @ ''STOCK ACTUALIZADO - MOBU'')
         else None)
      else
        (if upper warehouse = ''OPL'' then
           Some ''/Volumes/Bodega General/LIVSMART/BODEGA OPL/STOCK ACTUALIZADO - OPL/''
         else if upper warehouse = ''E'' then
           Some ''/Volumes/Bodega General/LIVSMART/BODEGA E/STOCK ACTUALIZADO - BODEGA E/''
         else if upper warehouse = ''MOBU'' then
           Some ''/Volumes/Bodega General/LIVSMART/BODEGAS MOBU/STOCK ACTUALIZADO - MOBU/''
         else None))"

text \<open>
  \<^verbatim>\<open>os.path.join\<close> of a directory and a name. On POSIX an absolute second part replaces the
  first, and a separator is added unless the first part is empty or ends in one. On Windows
  the model covers a second part that is relative and has no drive, which every file name
  of the program is: a backslash is added unless the first part is empty or ends in a
  separator.
\<close>

definition os_path_join :: "string \<Rightarrow> string \<Rightarrow> string \<Rightarrow> string" where
  "os_path_join os_name a b =
     (if os_name = ''nt'' then
        (if a = [] \<or> last a = bslash \<or> last a = CHR ''/'' then a @ b else a @ [bslash] @ b)
      else
        (if prefix ''/'' b then b
         else if a = [] \<or> last a = CHR ''/'' then a @ b
         else a @ ''/'' @ b))"

section \<open>Loading a spreadsheet\<close>

text \<open>
  What the program asks of its surroundings: \<^verbatim>\<open>os.name\<close>, \<^verbatim>\<open>os.path.exists\<close>,
  \<^verbatim>\<open>pd.read_excel\<close> (a table, or a raised \<^verbatim>\<open>Exception\<close>) and \<^verbatim>\<open>os.listdir\<close> (the names, or
  a raised \<^verbatim>\<open>Exception\<close>). Interrupts, which are no \<^verbatim>\<open>Exception\<close>, are outside the model.

  A function that can print returns the printed lines beside its result; a result
  \<open>Inl e\<close> is the exception \<open>e\<close> leaving the function.
\<close>

record env =
  os_name :: string
  path_exists :: "string \<Rightarrow> bool"
  pd_read_excel :: "string \<Rightarrow> exn + dataframe"
  os_listdir :: "string \<Rightarrow> exn + string list"

text \<open>Lines 53 to 73.\<close>

definition read_excel_file :: "env \<Rightarrow> string \<Rightarrow> (exn + dataframe option) \<times> string list" where
  "read_excel_file env file_path =
     (if path_exists env file_path then
        (case pd_read_excel env file_path of
           Inr df \<Rightarrow> (Inr (Some df), [''Successfully loaded: '' @ file_path])
         | Inl e \<Rightarrow> (Inr None, [''Error reading '' @ file_path @ '': '' @ exn_msg e]))
      else (Inr None, [''File not found: '' @ file_path]))"

text \<open>Lines 75 to 89: prints only.\<close>

definition list_directory_contents :: "env \<Rightarrow> string \<Rightarrow> string list" where
  "list_directory_contents env warehouse =
     (case get_base_path (os_name env) warehouse of
        None \<Rightarrow> [''Could not determine base path for warehouse: '' @ warehouse]
      | Some base_path \<Rightarrow>
          [CHR 0x0A # ''--- Listing contents for warehouse '' @ warehouse @ '' ---''] @
          (case os_listdir env base_path of
             Inr files \<Rightarrow> files
           | Inl e \<Rightarrow> [''Error listing directory '' @ base_path @ '': '' @ exn_msg e]))"

section \<open>Collecting the inventories\<close>

definition inventory_files :: "(string \<times> (string \<times> string) list) list" where
  "inventory_files =
     [(''LATA'',
        [(''OPL'', ''INVENTARIO LATA VACIA 2025 BODOPL.xlsx''),
         (''E'', ''INVENTARIO LATA VACIA 2025 BODE.xlsx''),
         (''MOBU'', ''INVENTARIO LATA VACIA 2025 MOBU.xlsx'')]),
      (''PREFORMA'',
        [(''OPL'', ''INVENTARIO DE PREFORMA 2025 BODOPL.xlsx''),
         (''E'', ''INVENTARIO DE PREFORMA 2025 BODE.xlsx''),
         (''MOBU'', ''INVENTARIO DE PREFORMA 2025 BODMOBU.xlsx'')]),
      (''PT'',
        [(''OPL'', ''INVENTARIO DE PT.XLSX''),
         (''E'', ''INVENTARIO DE PT.XLSX''),
         (''MOBU'', ''INVENTARIO DE PT.XLSX'')])]"

text \<open>
  \<^verbatim>\<open>results[warehouse] = df\<close> on a \<^verbatim>\<open>dict\<close>: a key that is present keeps its place, a new
  key goes last.
\<close>

fun dict_set :: "('k \<times> 'v) list \<Rightarrow> 'k \<Rightarrow> 'v \<Rightarrow> ('k \<times> 'v) list" where
  "dict_set [] k v = [(k, v)]"
| "dict_set ((k', v') # kvs) k v =
     (if k' = k then (k, v) # kvs else (k', v') # dict_set kvs k v)"

text \<open>
  The body of the loop of lines 129 to 149 for one warehouse, from the dictionary and the
  lines printed so far. \<^verbatim>\<open>inventory_files[inventory_type]\<close> raises \<^verbatim>\<open>KeyError\<close> on a missing
  key; \<^verbatim>\<open>.get(warehouse)\<close> answers \<^verbatim>\<open>None\<close> instead.
\<close>

definition visit_warehouse :: "env \<Rightarrow> string \<Rightarrow> string \<Rightarrow> (string \<times> dataframe) list \<Rightarrow> string list
    \<Rightarrow> (exn + (string \<times> dataframe) list) \<times> string list" where
  "visit_warehouse env inventory_type warehouse results out =
     (case get_base_path (os_name env) warehouse of
        None \<Rightarrow>
          (Inr results, out @ [''Could not determine base path for warehouse: '' @ warehouse])
      | Some base_path \<Rightarrow>
          (let out1 = out @ list_directory_contents env warehouse in
           case map_of inventory_files inventory_type of
             None \<Rightarrow> (Inl (Exn ''KeyError'' inventory_type), out1)
           | Some files \<Rightarrow>
               (case map_of files warehouse of
                  None \<Rightarrow>
                    (Inr results,
                     out1 @ [''No filename defined for '' @ inventory_type @
                             '' in warehouse '' @ warehouse @ ''.''])
                | Some file_name \<Rightarrow>
                    if file_name = [] then
                      (Inr results,
                       out1 @ [''No filename defined for '' @ inventory_type @
                               '' in warehouse '' @ warehouse @ ''.''])
                    else
                      (let file_path = os_path_join (os_name env) base_path file_name;
                           out2 = out1 @ [CHR 0x0A # ''Looking for file: '' @ file_path]
                       in case read_excel_file env file_path of
                            (Inl e, printed) \<Rightarrow> (Inl e, out2 @ printed)
                          | (Inr (Some df), printed) \<Rightarrow>
                              (Inr (dict_set results warehouse df), out2 @ printed)
                          | (Inr None, printed) \<Rightarrow>
                              (Inr results,
                               out2 @ printed @
                               [''Skipping '' @ warehouse @ '' for '' @ inventory_type @
                                '' as file could not be loaded.''])))))"

text \<open>The loop itself: an exception leaving the body ends it.\<close>

fun collect :: "env \<Rightarrow> string \<Rightarrow> string list \<Rightarrow> (string \<times> dataframe) list \<Rightarrow> string list
    \<Rightarrow> (exn + (string \<times> dataframe) list) \<times> string list" where
  "collect env inventory_type [] results out = (Inr results, out)"
| "collect env inventory_type (warehouse # rest) results out =
     (case visit_warehouse env inventory_type warehouse results out of
        (Inl e, out') \<Rightarrow> (Inl e, out')
      | (Inr results', out') \<Rightarrow> collect env inventory_type rest results' out')"

text \<open>Lines 94 to 151.\<close>

definition process_inventory :: "env \<Rightarrow> string \<Rightarrow> (exn + (string \<times> dataframe) list) \<times> string list" where
  "process_inventory env inventory_type =
     (if inventory_type \<notin> fst ` set inventory_files then
        (Inr [], [''Unknown inventory type: '' @ inventory_type])
      else collect env inventory_type [''OPL'', ''E'', ''MOBU''] [] [])"

text \<open>
  For stating what the collector returns: the path it looks at for a warehouse, built as
  the loop body builds it, and the table the loader gets from that path, if any.
\<close>

definition warehouse_file :: "string \<Rightarrow> string \<Rightarrow> string \<Rightarrow> string option" where
  "warehouse_file os inventory_type warehouse =
     (case get_base_path os warehouse of
        None \<Rightarrow> None
      | Some base_path \<Rightarrow>
          (case map_of inventory_files inventory_type of
             None \<Rightarrow> None
           | Some files \<Rightarrow>
               (case map_of files warehouse of
                  None \<Rightarrow> None
                | Some file_name \<Rightarrow>
                    if file_name = [] then None
                    else Some (os_path_join os base_path file_name))))"

definition loaded :: "env \<Rightarrow> string \<Rightarrow> string \<Rightarrow> dataframe option" where
  "loaded env inventory_type warehouse =
     (case warehouse_file (os_name env) inventory_type warehouse of
        None \<Rightarrow> None
      | Some file_path \<Rightarrow>
          (case fst (read_excel_file env file_path) of
             Inl e \<Rightarrow> None
           | Inr r \<Rightarrow> r))"

section \<open>Formatting the written workbook\<close>

text \<open>
  \<^verbatim>\<open>bool(v)\<close> and \<^verbatim>\<open>str(v)\<close> of a cell value. An integer prints in decimal, with a minus
  sign when negative.
\<close>

fun truthy :: "cell_value \<Rightarrow> bool" where
  "truthy VNone = False"
| "truthy (VStr s) = (s \<noteq> [])"
| "truthy (VInt n) = (n \<noteq> 0)"
| "truthy (VBool b) = b"

definition digit_char :: "nat \<Rightarrow> char" where
  "digit_char d = ''0123456789'' ! d"

function str_nat :: "nat \<Rightarrow> string" where
  "str_nat n = (if n < 10 then [digit_char n] else str_nat (n div 10) @ [digit_char (n mod 10)])"
  by pat_completeness auto
termination
  by (relation "measure (\<lambda>n. n)") auto

declare str_nat.simps [simp del]

definition str_int :: "int \<Rightarrow> string" where
  "str_int i = (if i < 0 then CHR ''-'' # str_nat (nat (- i)) else str_nat (nat i))"

text \<open>The number a string of decimal digits denotes, for checking \<open>str_nat\<close> against it.\<close>

definition decimal_value :: "string \<Rightarrow> nat" where
  "decimal_value s = foldl (\<lambda>a ch. 10 * a + (of_char ch - 48)) 0 s"

fun py_str :: "cell_value \<Rightarrow> string" where
  "py_str VNone = ''None''"
| "py_str (VStr s) = s"
| "py_str (VInt n) = str_int n"
| "py_str (VBool b) = (if b then ''True'' else ''False'')"

fun is_str :: "cell_value \<Rightarrow> bool" where
  "is_str (VStr s) = True"
| "is_str v = False"

text \<open>
  An openpyxl cell with the attributes the program touches, and the active worksheet: its
  cells by row and column number from 1 (a cell that was never written has no value),
  \<^verbatim>\<open>max_row\<close>, \<^verbatim>\<open>max_column\<close>, and the width set for a column. A column is named by its
  number; the source names it by the letters that spell that number. The program never
  touches a cell beyond \<^verbatim>\<open>max_row\<close> and \<^verbatim>\<open>max_column\<close>, so both stay as they are.
\<close>

record font =
  font_name :: string
  font_bold :: bool

record alignment =
  horizontal :: "string option"
  vertical :: "string option"

record pattern_fill =
  start_color :: string
  end_color :: string
  fill_type :: string

record cell =
  cvalue :: cell_value
  cell_font :: font
  cell_alignment :: alignment
  cell_fill :: "pattern_fill option"

record worksheet =
  cells :: "nat \<Rightarrow> nat \<Rightarrow> cell"
  max_row :: nat
  max_column :: nat
  column_width :: "nat \<Rightarrow> nat option"

definition header_font :: font where
  "header_font = \<lparr>font_name = ''Calibri'', font_bold = True\<rparr>"

definition minimal_font :: font where
  "minimal_font = \<lparr>font_name = ''Calibri'', font_bold = False\<rparr>"

definition centered :: alignment where
  "centered = \<lparr>horizontal = Some ''center'', vertical = Some ''center''\<rparr>"

definition solid_fill :: "string \<Rightarrow> pattern_fill" where
  "solid_fill color = \<lparr>start_color = color, end_color = color, fill_type = ''solid''\<rparr>"

definition light_blue :: pattern_fill where
  "light_blue = solid_fill ''ADD8E6''"

definition light_green :: pattern_fill where
  "light_green = solid_fill ''90EE90''"

definition light_salmon :: pattern_fill where
  "light_salmon = solid_fill ''FFA07A''"

text \<open>Writing one cell.\<close>

definition upd_cell :: "nat \<Rightarrow> nat \<Rightarrow> (cell \<Rightarrow> cell) \<Rightarrow> worksheet \<Rightarrow> worksheet" where
  "upd_cell r c f ws = ws\<lparr>cells := (cells ws)(r := (cells ws r)(c := f (cells ws r c)))\<rparr>"

text \<open>Lines 208 to 210: the header row, bold and centred.\<close>

definition format_header :: "worksheet \<Rightarrow> worksheet" where
  "format_header ws =
     fold (\<lambda>c. upd_cell 1 c (\<lambda>cell. cell\<lparr>cell_font := header_font, cell_alignment := centered\<rparr>))
       [1..<Suc (max_column ws)] ws"

text \<open>
  Lines 213 to 221: the width of every column. The test \<^verbatim>\<open>if cell.value:\<close> is Python's
  truth test.
\<close>

definition longer :: "cell_value \<Rightarrow> nat \<Rightarrow> nat" where
  "longer v max_length =
     (if truthy v then
        (if length (py_str v) > max_length then length (py_str v) else max_length)
      else max_length)"

definition column_max_length :: "worksheet \<Rightarrow> nat \<Rightarrow> nat" where
  "column_max_length ws c =
     fold (\<lambda>r max_length. longer (cvalue (cells ws r c)) max_length) [1..<Suc (max_row ws)] 0"

definition set_column_width :: "nat \<Rightarrow> worksheet \<Rightarrow> worksheet" where
  "set_column_width c ws =
     ws\<lparr>column_width := (column_width ws)(c \<mapsto> column_max_length ws c + 2)\<rparr>"

definition adjust_widths :: "worksheet \<Rightarrow> worksheet" where
  "adjust_widths ws = fold set_column_width [1..<Suc (max_column ws)] ws"

text \<open>Lines 224 to 228: the plain font on every cell, then the bold font on the header again.\<close>

definition apply_fonts :: "worksheet \<Rightarrow> worksheet" where
  "apply_fonts ws =
     fold (\<lambda>c. upd_cell 1 c (\<lambda>cell. cell\<lparr>cell_font := header_font\<rparr>)) [1..<Suc (max_column ws)]
       (fold (\<lambda>r. fold (\<lambda>c. upd_cell r c (\<lambda>cell. cell\<lparr>cell_font := minimal_font\<rparr>))
                     [1..<Suc (max_column ws)])
          [1..<Suc (max_row ws)] ws)"

text \<open>
  Lines 231 to 238: the columns headed \<^verbatim>\<open>Bodega\<close> and \<^verbatim>\<open>CODIGO WMS\<close>. A later header with
  the same text replaces an earlier one.
\<close>

fun note_header :: "worksheet \<Rightarrow> nat \<Rightarrow> nat option \<times> nat option \<Rightarrow> nat option \<times> nat option" where
  "note_header ws c (bodega_col, codigo_wms_col) =
     (if cvalue (cells ws 1 c) = VStr ''Bodega'' then (Some c, codigo_wms_col)
      else if cvalue (cells ws 1 c) = VStr ''CODIGO WMS'' then (bodega_col, Some c)
      else (bodega_col, codigo_wms_col))"

definition find_columns :: "worksheet \<Rightarrow> nat option \<times> nat option" where
  "find_columns ws = fold (note_header ws) [1..<Suc (max_column ws)] (None, None)"

text \<open>Lines 240 to 248: the fill of one cell of the \<^verbatim>\<open>Bodega\<close> column, then the data rows.\<close>

definition bodega_fill :: "cell \<Rightarrow> cell" where
  "bodega_fill cell =
     (if cvalue cell = VStr ''Bodega OPL'' then cell\<lparr>cell_fill := Some light_blue\<rparr>
      else if cvalue cell = VStr ''Bodega E'' then cell\<lparr>cell_fill := Some light_green\<rparr>
      else if cvalue cell = VStr ''Bodegas MOBU'' then cell\<lparr>cell_fill := Some light_salmon\<rparr>
      else cell)"

definition color_bodega :: "nat option \<Rightarrow> worksheet \<Rightarrow> worksheet" where
  "color_bodega bodega_col ws =
     (case bodega_col of
        None \<Rightarrow> ws
      | Some col \<Rightarrow> fold (\<lambda>r. upd_cell r col bodega_fill) [2..<Suc (max_row ws)] ws)"

text \<open>Lines 251 to 255: the values of the \<^verbatim>\<open>CODIGO WMS\<close> column as strings.\<close>

definition to_string_cell :: "cell \<Rightarrow> cell" where
  "to_string_cell cell =
     (if cvalue cell \<noteq> VNone \<and> \<not> is_str (cvalue cell)
      then cell\<lparr>cvalue := VStr (py_str (cvalue cell))\<rparr>
      else cell)"

definition normalize_codigo :: "nat option \<Rightarrow> worksheet \<Rightarrow> worksheet" where
  "normalize_codigo codigo_wms_col ws =
     (case codigo_wms_col of
        None \<Rightarrow> ws
      | Some col \<Rightarrow> fold (\<lambda>r. upd_cell r col to_string_cell) [2..<Suc (max_row ws)] ws)"

text \<open>
  Lines 200 to 257, from the loaded worksheet to the worksheet that is saved.
\<close>

definition format_excel_file :: "worksheet \<Rightarrow> worksheet" where
  "format_excel_file ws =
     (let ws1 = format_header ws;
          ws2 = adjust_widths ws1;
          ws3 = apply_fonts ws2;
          (bodega_col, codigo_wms_col) = find_columns ws3;
          ws4 = color_bodega bodega_col ws3;
          ws5 = normalize_codigo codigo_wms_col ws4
      in ws5)"

text \<open>
  The rules in the words of the specification, for comparison. The width of a column: the
  longest text of a non-empty cell of the column, header included, plus 2.
\<close>

definition spec_width :: "worksheet \<Rightarrow> nat \<Rightarrow> nat" where
  "spec_width ws c =
     fold max (map (\<lambda>r. length (py_str (cvalue (cells ws r c))))
                 (filter (\<lambda>r. cvalue (cells ws r c) \<noteq> VNone) [1..<Suc (max_row ws)])) 0 + 2"

section \<open>Example inputs\<close>

text \<open>
  Two small inventory tables and a store that holds them at addresses 0 and 1. The first
  table already has a \<^verbatim>\<open>Bodega\<close> column.
\<close>

definition ex_opl :: dataframe where
  "ex_opl = \<lparr>columns = [''CODIGO WMS'', ''Bodega''],
             rows = [(0, (\<lambda>c. VNone)(''CODIGO WMS'' := VInt 1001, ''Bodega'' := VStr ''vieja'')),
                     (1, (\<lambda>c. VNone)(''CODIGO WMS'' := VStr ''00417''))]\<rparr>"

definition ex_mobu :: dataframe where
  "ex_mobu = \<lparr>columns = [''CODIGO WMS'', ''LOTE''],
              rows = [(0, (\<lambda>c. VNone)(''CODIGO WMS'' := VInt 2001, ''LOTE'' := VStr ''A'')),
                      (1, (\<lambda>c. VNone)(''CODIGO WMS'' := VInt 2002)),
                      (2, (\<lambda>c. VNone)(''CODIGO WMS'' := VInt 2003, ''LOTE'' := VStr ''C''))]\<rparr>"

definition ex_store :: store where
  "ex_store = (\<lambda>a. \<lparr>columns = [], rows = []\<rparr>)(0 := ex_opl, 1 := ex_mobu)"

text \<open>
  Surroundings on the second platform in which the \<^verbatim>\<open>LATA\<close> files of \<^verbatim>\<open>OPL\<close> and \<^verbatim>\<open>MOBU\<close>
  exist and parse, the file of \<^verbatim>\<open>E\<close> is missing, and one more file exists that is no
  spreadsheet.
\<close>

definition ex_opl_path :: string where
  "ex_opl_path = ''/Volumes/Bodega General/LIVSMART/BODEGA OPL/STOCK ACTUALIZADO - OPL/INVENTARIO LATA VACIA 2025 BODOPL.xlsx''"

definition ex_mobu_path :: string where
  "ex_mobu_path = ''/Volumes/Bodega General/LIVSMART/BODEGAS MOBU/STOCK ACTUALIZADO - MOBU/INVENTARIO LATA VACIA 2025 MOBU.xlsx''"

definition ex_env :: env where
  "ex_env = \<lparr>os_name = ''posix'',
             path_exists = (\<lambda>p. p = ex_opl_path \<or> p = ex_mobu_path \<or> p = ''/tmp/notes.txt''),
             pd_read_excel = (\<lambda>p. if p = ex_opl_path then Inr ex_opl
                                   else if p = ex_mobu_path then Inr ex_mobu
                                   else Inl (Exn ''BadZipFile'' ''File is not a zip file'')),
             os_listdir = (\<lambda>p. Inl (Exn ''FileNotFoundError'' ''No such file or directory''))\<rparr>"

text \<open>
  A worksheet as the program writes it: a header row and three data rows, no fill
  anywhere. The second column holds booleans. A second worksheet has the same cells under
  headers that are neither \<^verbatim>\<open>Bodega\<close> nor \<^verbatim>\<open>CODIGO WMS\<close>.
\<close>

definition blank_cell :: cell where
  "blank_cell = \<lparr>cvalue = VNone,
                 cell_font = \<lparr>font_name = ''Calibri'', font_bold = False\<rparr>,
                 cell_alignment = \<lparr>horizontal = None, vertical = None\<rparr>,
                 cell_fill = None\<rparr>"

definition ex_values :: "cell_value list list" where
  "ex_values =
     [[VStr ''CODIGO WMS'', VStr ''OK'', VStr ''Bodega''],
      [VInt 1001, VBool False, VStr ''Bodega OPL''],
      [VStr ''00417'', VBool False, VStr ''Bodega E''],
      [VNone, VBool False, VStr ''otra'']]"

definition ex_sheet :: worksheet where
  "ex_sheet =
     \<lparr>cells = (\<lambda>r c. if 1 \<le> r \<and> r \<le> 4 \<and> 1 \<le> c \<and> c \<le> 3
                       then blank_cell\<lparr>cvalue := ex_values ! (r - 1) ! (c - 1)\<rparr>
                       else blank_cell),
      max_row = 4, max_column = 3, column_width = (\<lambda>c. None)\<rparr>"

definition ex_plain :: worksheet where
  "ex_plain = ex_sheet\<lparr>cells := (cells ex_sheet)(1 := (\<lambda>c. blank_cell\<lparr>cvalue := VStr ''X''\<rparr>))\<rparr>"

section \<open>Properties of the merger\<close>

subsection \<open>Labels\<close>

lemma upper_known: "upper ''OPL'' = ''OPL''" "upper ''E'' = ''E''" "upper ''MOBU'' = ''MOBU''"
  by (simp_all add: upper_def upper_char_def)

lemma bodega_label_known:
  "bodega_label ''OPL'' = ''Bodega OPL''" "bodega_label ''E'' = ''Bodega E''"
  "bodega_label ''MOBU'' = ''Bodegas MOBU''"
  by (simp_all add: bodega_label_def upper_known)

subsection \<open>Assigning a column\<close>

lemma df_setitem_twice: "df_setitem (df_setitem df c v) c v' = df_setitem df c v'"
  by (simp add: df_setitem_def comp_def split_def)

lemma df_setitem_columns_mem: "c \<in> set (columns (df_setitem df c v))"
  by (simp add: df_setitem_def)

lemma df_setitem_columns_set: "set (columns (df_setitem df c v)) = insert c (set (columns df))"
  by (auto simp: df_setitem_def)

lemma df_setitem_rows_length: "length (rows (df_setitem df c v)) = length (rows df)"
  by (simp add: df_setitem_def)

lemma frame_rows_length: "length (frame_rows df) = length (rows df)"
  by (simp add: frame_rows_def)

lemma frame_rows_setitem:
  "frame_rows (df_setitem df c v) =
     map (\<lambda>(i, r). (\<lambda>x. if x = c then v else if x \<in> set (columns df) then r x else VNone)) (rows df)"
  by (auto simp: frame_rows_def df_setitem_def reindex_row_def fun_eq_iff)

lemma frame_rows_setitem_mem: "r \<in> set (frame_rows (df_setitem df c v)) \<Longrightarrow> r c = v"
  by (auto simp: frame_rows_setitem)

subsection \<open>Concatenation\<close>

lemma count_list_distinct: "distinct xs \<Longrightarrow> x \<in> set xs \<Longrightarrow> count_list xs x = 1"
  by (induction xs) auto

lemma fold_add_column_set: "set (fold add_column cs acc) = set acc \<union> set cs"
  by (induction cs arbitrary: acc) (auto simp: add_column_def)

lemma fold_add_column_distinct: "distinct acc \<Longrightarrow> distinct (fold add_column cs acc)"
  by (induction cs arbitrary: acc) (auto simp: add_column_def)

lemma fold_frames_set:
  "set (fold (\<lambda>df acc. fold add_column (columns df) acc) dfs acc) =
     set acc \<union> (\<Union>df \<in> set dfs. set (columns df))"
  by (induction dfs arbitrary: acc) (auto simp: fold_add_column_set)

lemma fold_frames_distinct:
  "distinct acc \<Longrightarrow> distinct (fold (\<lambda>df acc. fold add_column (columns df) acc) dfs acc)"
  by (induction dfs arbitrary: acc) (auto simp: fold_add_column_distinct)

lemma union_columns_set: "set (union_columns dfs) = (\<Union>df \<in> set dfs. set (columns df))"
  by (simp add: union_columns_def fold_frames_set)

lemma union_columns_distinct: "distinct (union_columns dfs)"
  by (simp add: union_columns_def fold_frames_distinct)

lemma renumber_length: "length (renumber rs) = length rs"
  by (simp add: renumber_def)

lemma renumber_fst: "map fst (renumber rs) = map int [0..<length rs]"
  by (simp add: renumber_def)

lemma renumber_mem: "(i, r) \<in> set (renumber rs) \<Longrightarrow> r \<in> set rs"
  by (auto simp: renumber_def dest: set_zip_rightD)

lemma renumber_nth: "i < length rs \<Longrightarrow> renumber rs ! i = (int i, rs ! i)"
  by (simp add: renumber_def)

subsection \<open>The tagging loop\<close>

text \<open>
  The loop appends every table of the dictionary to the list, and leaves in the store, for
  each address, the table tagged with the label of the last entry that names the address.
\<close>

lemma tag_tables_list: "snd (tag_tables d s ml) = ml @ map snd d"
  by (induction d arbitrary: s ml) auto

lemma tag_tables_store:
  "fst (tag_tables d s ml) a =
     (case last_key d a of
        None \<Rightarrow> s a
      | Some w \<Rightarrow> df_setitem (s a) ''Bodega'' (VStr (bodega_label w)))"
proof (induction d arbitrary: s ml)
  case Nil
  show ?case by simp
next
  case (Cons e rest)
  obtain w b where e: "e = (w, b)" by (cases e)
  show ?case
    unfolding e by (simp add: Cons.IH df_setitem_twice split: option.splits)
qed

lemma last_key_mem: "last_key d a = Some w \<Longrightarrow> (w, a) \<in> set d"
  by (induction d) (auto split: option.splits if_splits)

lemma last_key_None: "last_key d a = None \<longleftrightarrow> a \<notin> snd ` set d"
  by (induction d) (auto split: option.splits if_splits)

lemma last_key_at:
  assumes "i < length d" and "d ! i = (w, a)"
    and "\<forall>j. i < j \<and> j < length d \<longrightarrow> snd (d ! j) \<noteq> a"
  shows "last_key d a = Some w"
  using assms
proof (induction d arbitrary: i)
  case Nil
  then show ?case by simp
next
  case (Cons e rest)
  obtain w0 b0 where e: "e = (w0, b0)" by (cases e)
  show ?case
  proof (cases i)
    case 0
    with Cons.prems e have w0: "w0 = w" "b0 = a" by auto
    have "a \<notin> snd ` set rest"
    proof
      assume "a \<in> snd ` set rest"
      then obtain j where "j < length rest" "snd (rest ! j) = a"
        by (auto simp: in_set_conv_nth)
      with Cons.prems(3) 0 show False by (auto dest: spec[of _ "Suc j"])
    qed
    then have "last_key rest a = None" by (simp add: last_key_None)
    then show ?thesis by (simp add: e w0)
  next
    case (Suc i')
    have "last_key rest a = Some w"
    proof (rule Cons.IH)
      show "i' < length rest" using Cons.prems(1) Suc by simp
      show "rest ! i' = (w, a)" using Cons.prems(2) Suc by simp
      show "\<forall>j. i' < j \<and> j < length rest \<longrightarrow> snd (rest ! j) \<noteq> a"
        using Cons.prems(3) Suc by (auto dest: spec[of _ "Suc j" for j])
    qed
    then show ?thesis by (simp add: e)
  qed
qed

lemma tagged_table:
  assumes "(w, a) \<in> set d"
  shows "\<exists>w'. (w', a) \<in> set d \<and>
           fst (tag_tables d s ml) a = df_setitem (s a) ''Bodega'' (VStr (bodega_label w'))"
proof -
  from assms have "a \<in> snd ` set d" by force
  then obtain w' where w': "last_key d a = Some w'"
    using last_key_None[of d a] by (cases "last_key d a") auto
  then have "(w', a) \<in> set d" by (rule last_key_mem)
  moreover have "fst (tag_tables d s ml) a = df_setitem (s a) ''Bodega'' (VStr (bodega_label w'))"
    using w' by (simp add: tag_tables_store)
  ultimately show ?thesis by blast
qed

text \<open>The whole function in one equation: the concatenation reads the tables as tagged.\<close>

lemma merge_inventories_eq:
  "merge_inventories s d =
     (fst (tag_tables d s []),
      if d = [] then Inr None
      else Inr (Some \<lparr>columns = union_columns (map (fst (tag_tables d s [])) (map snd d)),
                       rows = renumber (concat (map frame_rows
                                (map (fst (tag_tables d s [])) (map snd d))))\<rparr>))"
proof -
  obtain s' ml where t: "tag_tables d s [] = (s', ml)" by (cases "tag_tables d s []")
  then have ml: "ml = map snd d" using tag_tables_list[of d s "[]"] by simp
  show ?thesis using t ml by (simp add: merge_inventories_def pd_concat_def)
qed

subsection \<open>The claims about the merger\<close>

text \<open>
  C1. For a dictionary that is not empty, has its keys among \<^verbatim>\<open>OPL\<close>, \<^verbatim>\<open>E\<close> and \<^verbatim>\<open>MOBU\<close> and
  holds tables as the loader makes them, the merged table has exactly one column named
  \<^verbatim>\<open>Bodega\<close>, and every row holds in it one of the three labels \<^verbatim>\<open>Bodega OPL\<close>,
  \<^verbatim>\<open>Bodega E\<close>, \<^verbatim>\<open>Bodegas MOBU\<close>, which is not empty.
\<close>

theorem merge_inventories_bodega_invariant:
  assumes nonempty: "inventory_dict \<noteq> []"
    and keys: "\<forall>(w, a) \<in> set inventory_dict. w \<in> {''OPL'', ''E'', ''MOBU''}"
    and wf: "\<forall>(w, a) \<in> set inventory_dict. wf_df (s a)"
  shows "\<exists>s' m. merge_inventories s inventory_dict = (s', Inr (Some m)) \<and>
           count_list (columns m) ''Bodega'' = 1 \<and>
           (\<forall>(i, r) \<in> set (rows m).
              \<exists>l \<in> {''Bodega OPL'', ''Bodega E'', ''Bodegas MOBU''}. l \<noteq> [] \<and> r ''Bodega'' = VStr l)"
proof -
  define s' where "s' = fst (tag_tables inventory_dict s [])"
  define m where "m = \<lparr>columns = union_columns (map s' (map snd inventory_dict)),
                        rows = renumber (concat (map frame_rows (map s' (map snd inventory_dict))))\<rparr>"
  have res: "merge_inventories s inventory_dict = (s', Inr (Some m))"
    using nonempty by (simp add: merge_inventories_eq s'_def m_def)
  have label: "\<exists>l \<in> {''Bodega OPL'', ''Bodega E'', ''Bodegas MOBU''}. l \<noteq> [] \<and> r ''Bodega'' = VStr l"
    if "(i, r) \<in> set (rows m)" for i r
  proof -
    from that have "r \<in> set (concat (map frame_rows (map s' (map snd inventory_dict))))"
      by (auto simp: m_def dest: renumber_mem)
    then obtain w a where wa: "(w, a) \<in> set inventory_dict" and r: "r \<in> set (frame_rows (s' a))"
      by auto
    from tagged_table[OF wa, of s "[]"] obtain w' where
      w': "(w', a) \<in> set inventory_dict" and
      t: "s' a = df_setitem (s a) ''Bodega'' (VStr (bodega_label w'))"
      by (auto simp: s'_def)
    from r t have v: "r ''Bodega'' = VStr (bodega_label w')"
      by (simp add: frame_rows_setitem_mem)
    from keys w' have "w' \<in> {''OPL'', ''E'', ''MOBU''}" by auto
    then have "bodega_label w' \<in> {''Bodega OPL'', ''Bodega E'', ''Bodegas MOBU''}"
      by (auto simp: bodega_label_known)
    with v show ?thesis by auto
  qed
  obtain w a where wa: "(w, a) \<in> set inventory_dict"
    using nonempty by (cases inventory_dict) auto
  from tagged_table[OF wa, of s "[]"] have "''Bodega'' \<in> set (columns (s' a))"
    by (auto simp: s'_def df_setitem_columns_mem)
  with wa have "''Bodega'' \<in> set (columns m)"
    by (force simp: m_def union_columns_set)
  moreover have "distinct (columns m)"
    by (simp add: m_def union_columns_distinct)
  ultimately have one: "count_list (columns m) ''Bodega'' = 1"
    by (simp add: count_list_distinct)
  from res one label show ?thesis by blast
qed

theorem merge_inventories_bodega_invariant_witness:
  "\<exists>s' m. merge_inventories ex_store [(''OPL'', 0), (''MOBU'', 1)] = (s', Inr (Some m)) \<and>
           count_list (columns m) ''Bodega'' = 1 \<and>
           (\<forall>(i, r) \<in> set (rows m).
              \<exists>l \<in> {''Bodega OPL'', ''Bodega E'', ''Bodegas MOBU''}. l \<noteq> [] \<and> r ''Bodega'' = VStr l)"
proof -
  have h1: "[(''OPL'', 0::nat), (''MOBU'', 1)] \<noteq> []" by simp
  have h2: "\<forall>(w, a) \<in> set [(''OPL'', 0::nat), (''MOBU'', 1)]. w \<in> {''OPL'', ''E'', ''MOBU''}"
    by simp
  have h3: "\<forall>(w, a) \<in> set [(''OPL'', 0::nat), (''MOBU'', 1)]. wf_df (ex_store a)"
    by (simp add: wf_df_def ex_store_def ex_opl_def ex_mobu_def)
  show ?thesis by (rule merge_inventories_bodega_invariant[OF h1 h2 h3])
qed

text \<open>
  C2. On the dictionary with a table of 2 rows under \<^verbatim>\<open>OPL\<close> and then a table of 3 rows
  under \<^verbatim>\<open>MOBU\<close>, the merger returns a table of 5 rows with the index 0 to 4. Its rows 0
  and 1 are the rows of the first table in their order with \<^verbatim>\<open>Bodega OPL\<close>, its rows 2 to 4
  are the rows of the second table in their order with \<^verbatim>\<open>Bodegas MOBU\<close>, and a cell of a
  column the row's table does not have is missing. Its column set is the union of the
  column sets of the two tables as tagged, that is of the two tables as given and
  \<^verbatim>\<open>Bodega\<close>.
\<close>

theorem merge_inventories_opl_mobu:
  assumes la: "length (rows (s a)) = 2" and lb: "length (rows (s b)) = 3"
    and wf: "wf_df (s a)" "wf_df (s b)"
  shows "\<exists>s' m. merge_inventories s [(''OPL'', a), (''MOBU'', b)] = (s', Inr (Some m)) \<and>
           length (rows m) = 5 \<and>
           map fst (rows m) = [0, 1, 2, 3, 4] \<and>
           set (columns m) = set (columns (s a)) \<union> set (columns (s b)) \<union> {''Bodega''} \<and>
           set (columns m) = set (columns (s' a)) \<union> set (columns (s' b)) \<and>
           (\<forall>i<2. \<forall>c. snd (rows m ! i) c =
              (if c = ''Bodega'' then VStr ''Bodega OPL''
               else if c \<in> set (columns (s a)) then snd (rows (s a) ! i) c else VNone)) \<and>
           (\<forall>i<3. \<forall>c. snd (rows m ! (2 + i)) c =
              (if c = ''Bodega'' then VStr ''Bodegas MOBU''
               else if c \<in> set (columns (s b)) then snd (rows (s b) ! i) c else VNone))"
proof -
  have ab: "a \<noteq> b" using la lb by auto
  define ta where "ta = df_setitem (s a) ''Bodega'' (VStr ''Bodega OPL'')"
  define tb where "tb = df_setitem (s b) ''Bodega'' (VStr ''Bodegas MOBU'')"
  define s' where "s' = s(a := ta, b := tb)"
  define m where "m = \<lparr>columns = union_columns [ta, tb],
                        rows = renumber (frame_rows ta @ frame_rows tb)\<rparr>"
  have res: "merge_inventories s [(''OPL'', a), (''MOBU'', b)] = (s', Inr (Some m))"
    using ab by (simp add: merge_inventories_eq bodega_label_known s'_def m_def ta_def tb_def)
  have lta: "length (frame_rows ta) = 2" and ltb: "length (frame_rows tb) = 3"
    by (simp_all add: frame_rows_length ta_def tb_def df_setitem_rows_length la lb)
  have len: "length (rows m) = 5"
    by (simp add: m_def renumber_length lta ltb)
  have "map fst (rows m) = map int [0..<5]"
    by (simp add: m_def renumber_fst lta ltb)
  also have "[0..<5] = [0, 1, 2, 3, 4]" by (simp add: upt_rec)
  finally have idx: "map fst (rows m) = [0, 1, 2, 3, 4]" by simp
  have cols: "set (columns m) = set (columns (s a)) \<union> set (columns (s b)) \<union> {''Bodega''}"
    by (auto simp: m_def union_columns_set ta_def tb_def df_setitem_columns_set)
  have cols': "set (columns m) = set (columns (s' a)) \<union> set (columns (s' b))"
    using ab by (auto simp: m_def union_columns_set s'_def)
  have opl: "snd (rows m ! i) c =
              (if c = ''Bodega'' then VStr ''Bodega OPL''
               else if c \<in> set (columns (s a)) then snd (rows (s a) ! i) c else VNone)"
    if "i < 2" for i c
  proof -
    have "rows m ! i = (int i, frame_rows ta ! i)"
      using that by (simp add: m_def renumber_nth lta ltb nth_append)
    then show ?thesis
      using that la by (simp add: ta_def frame_rows_setitem split_def)
  qed
  have mobu: "snd (rows m ! (2 + i)) c =
              (if c = ''Bodega'' then VStr ''Bodegas MOBU''
               else if c \<in> set (columns (s b)) then snd (rows (s b) ! i) c else VNone)"
    if "i < 3" for i c
  proof -
    have "rows m ! (2 + i) = (int (2 + i), frame_rows tb ! i)"
      using that by (simp add: m_def renumber_nth lta ltb nth_append)
    then show ?thesis
      using that lb by (simp add: tb_def frame_rows_setitem split_def)
  qed
  show ?thesis
  proof (intro exI conjI)
    show "merge_inventories s [(''OPL'', a), (''MOBU'', b)] = (s', Inr (Some m))" by (rule res)
    show "length (rows m) = 5" by (rule len)
    show "map fst (rows m) = [0, 1, 2, 3, 4]" by (rule idx)
    show "set (columns m) = set (columns (s a)) \<union> set (columns (s b)) \<union> {''Bodega''}"
      by (rule cols)
    show "set (columns m) = set (columns (s' a)) \<union> set (columns (s' b))" by (rule cols')
    show "\<forall>i<2. \<forall>c. snd (rows m ! i) c =
              (if c = ''Bodega'' then VStr ''Bodega OPL''
               else if c \<in> set (columns (s a)) then snd (rows (s a) ! i) c else VNone)"
      using opl by blast
    show "\<forall>i<3. \<forall>c. snd (rows m ! (2 + i)) c =
              (if c = ''Bodega'' then VStr ''Bodegas MOBU''
               else if c \<in> set (columns (s b)) then snd (rows (s b) ! i) c else VNone)"
      using mobu by blast
  qed
qed

theorem merge_inventories_opl_mobu_witness:
  "\<exists>s' m. merge_inventories ex_store [(''OPL'', 0), (''MOBU'', 1)] = (s', Inr (Some m)) \<and>
           length (rows m) = 5 \<and>
           map fst (rows m) = [0, 1, 2, 3, 4] \<and>
           set (columns m) = {''CODIGO WMS'', ''LOTE'', ''Bodega''} \<and>
           map (\<lambda>(i, r). r ''Bodega'') (rows m) =
             [VStr ''Bodega OPL'', VStr ''Bodega OPL'',
              VStr ''Bodegas MOBU'', VStr ''Bodegas MOBU'', VStr ''Bodegas MOBU'']"
proof -
  have h1: "length (rows (ex_store 0)) = 2" by (simp add: ex_store_def ex_opl_def)
  have h2: "length (rows (ex_store 1)) = 3" by (simp add: ex_store_def ex_mobu_def)
  have h3: "wf_df (ex_store 0)" by (simp add: wf_df_def ex_store_def ex_opl_def)
  have h4: "wf_df (ex_store 1)" by (simp add: wf_df_def ex_store_def ex_mobu_def)
  from merge_inventories_opl_mobu[OF h1 h2 h3 h4] obtain s' m where
    res: "merge_inventories ex_store [(''OPL'', 0), (''MOBU'', 1)] = (s', Inr (Some m))" and
    len: "length (rows m) = 5" and
    idx: "map fst (rows m) = [0, 1, 2, 3, 4]" and
    cols: "set (columns m) = set (columns (ex_store 0)) \<union> set (columns (ex_store 1)) \<union> {''Bodega''}" and
    opl: "\<forall>i<2. \<forall>c. snd (rows m ! i) c =
              (if c = ''Bodega'' then VStr ''Bodega OPL''
               else if c \<in> set (columns (ex_store 0)) then snd (rows (ex_store 0) ! i) c else VNone)" and
    mobu: "\<forall>i<3. \<forall>c. snd (rows m ! (2 + i)) c =
              (if c = ''Bodega'' then VStr ''Bodegas MOBU''
               else if c \<in> set (columns (ex_store 1)) then snd (rows (ex_store 1) ! i) c else VNone)"
    by (elim exE conjE)
  have cols': "set (columns m) = {''CODIGO WMS'', ''LOTE'', ''Bodega''}"
    unfolding cols by (auto simp: ex_store_def ex_opl_def ex_mobu_def)
  have b0: "snd (rows m ! 0) ''Bodega'' = VStr ''Bodega OPL''"
    and b1: "snd (rows m ! 1) ''Bodega'' = VStr ''Bodega OPL''"
    using opl by simp_all
  have b2: "snd (rows m ! 2) ''Bodega'' = VStr ''Bodegas MOBU''"
    and b3: "snd (rows m ! 3) ''Bodega'' = VStr ''Bodegas MOBU''"
    and b4: "snd (rows m ! 4) ''Bodega'' = VStr ''Bodegas MOBU''"
    using mobu[rule_format, of 0 "''Bodega''"] mobu[rule_format, of 1 "''Bodega''"]
      mobu[rule_format, of 2 "''Bodega''"] by simp_all
  have "map (\<lambda>(i, r). r ''Bodega'') (rows m) = map (\<lambda>k. snd (rows m ! k) ''Bodega'') [0..<5]"
    using len by (auto simp: list_eq_iff_nth_eq split_def)
  also have "\<dots> = [VStr ''Bodega OPL'', VStr ''Bodega OPL'',
              VStr ''Bodegas MOBU'', VStr ''Bodegas MOBU'', VStr ''Bodegas MOBU'']"
    using b0 b1 b2 b3 b4 by (simp add: upt_rec eval_nat_numeral)
  finally have labels: "map (\<lambda>(i, r). r ''Bodega'') (rows m) =
             [VStr ''Bodega OPL'', VStr ''Bodega OPL'',
              VStr ''Bodegas MOBU'', VStr ''Bodegas MOBU'', VStr ''Bodegas MOBU'']" .
  from res len idx cols' labels show ?thesis by (intro exI conjI)
qed

text \<open>
  C3. On tables as the loader makes them the merger never raises, and it returns no table
  exactly when the dictionary is empty.
\<close>

theorem merge_inventories_none_iff:
  assumes wf: "\<forall>(w, a) \<in> set inventory_dict. wf_df (s a)"
  shows "\<exists>s' r. merge_inventories s inventory_dict = (s', Inr r) \<and>
           (r = None \<longleftrightarrow> inventory_dict = [])"
  by (simp add: merge_inventories_eq)

theorem merge_inventories_none_iff_witness:
  "(\<exists>s'. merge_inventories ex_store [] = (s', Inr None)) \<and>
   (\<exists>s' m. merge_inventories ex_store [(''E'', 1)] = (s', Inr (Some m)))"
proof -
  have h: "\<forall>(w, a) \<in> set [(''E'', 1::nat)]. wf_df (ex_store a)"
    by (simp add: wf_df_def ex_store_def ex_mobu_def)
  have h0: "\<forall>(w, a) \<in> set ([] :: (string \<times> addr) list). wf_df (ex_store a)" by simp
  from merge_inventories_none_iff[OF h0] merge_inventories_none_iff[OF h]
  show ?thesis by auto
qed

text \<open>
  C10. The merger writes into the tables it is given. Take an entry of the dictionary, warehouse \<open>w\<close> with the
  table at address \<open>a\<close>, such that no later entry holds the same table (in a dictionary
  of separate tables, any entry). After the call that table has the column \<^verbatim>\<open>Bodega\<close>, in
  its old place if it had one and last otherwise; every row holds the label of \<open>w\<close> there,
  whatever it held before; the index, the number of rows, the other columns and every
  other cell are as before. A table that the dictionary does not hold is unchanged.
\<close>

theorem merge_inventories_mutates_in_place:
  assumes run: "merge_inventories s inventory_dict = (s', result)"
    and entry: "i < length inventory_dict" "inventory_dict ! i = (w, a)"
    and last: "\<forall>j. i < j \<and> j < length inventory_dict \<longrightarrow> snd (inventory_dict ! j) \<noteq> a"
  shows "columns (s' a) =
           (if ''Bodega'' \<in> set (columns (s a)) then columns (s a) else columns (s a) @ [''Bodega'']) \<and>
         map fst (rows (s' a)) = map fst (rows (s a)) \<and>
         (\<forall>k < length (rows (s a)). \<forall>c. snd (rows (s' a) ! k) c =
            (if c = ''Bodega'' then VStr (bodega_label w) else snd (rows (s a) ! k) c)) \<and>
         (\<forall>b. b \<notin> snd ` set inventory_dict \<longrightarrow> s' b = s b)"
proof -
  have s': "s' = fst (tag_tables inventory_dict s [])"
    using run by (simp add: merge_inventories_eq)
  have lk: "last_key inventory_dict a = Some w"
    using entry last by (rule last_key_at)
  have t: "s' a = df_setitem (s a) ''Bodega'' (VStr (bodega_label w))"
    by (simp add: s' tag_tables_store lk)
  have c1: "columns (s' a) =
           (if ''Bodega'' \<in> set (columns (s a)) then columns (s a) else columns (s a) @ [''Bodega''])"
    by (simp add: t df_setitem_def)
  have c2: "map fst (rows (s' a)) = map fst (rows (s a))"
    by (simp add: t df_setitem_def split_def comp_def)
  have c3: "\<forall>k < length (rows (s a)). \<forall>c. snd (rows (s' a) ! k) c =
            (if c = ''Bodega'' then VStr (bodega_label w) else snd (rows (s a) ! k) c)"
    by (simp add: t df_setitem_def split_def)
  have c4: "\<forall>b. b \<notin> snd ` set inventory_dict \<longrightarrow> s' b = s b"
  proof (intro allI impI)
    fix b
    assume "b \<notin> snd ` set inventory_dict"
    then have "last_key inventory_dict b = None" by (simp add: last_key_None)
    then show "s' b = s b" by (simp add: s' tag_tables_store)
  qed
  from c1 c2 c3 c4 show ?thesis by blast
qed

theorem merge_inventories_mutates_in_place_witness:
  "\<exists>s' result. merge_inventories ex_store [(''OPL'', 0), (''MOBU'', 1)] = (s', result) \<and>
     columns (s' 0) = [''CODIGO WMS'', ''Bodega''] \<and>
     map fst (rows (s' 0)) = [0, 1] \<and>
     snd (rows (s' 0) ! 0) ''Bodega'' = VStr ''Bodega OPL'' \<and>
     snd (rows (s' 0) ! 0) ''CODIGO WMS'' = VInt 1001 \<and>
     snd (rows (s' 0) ! 1) ''Bodega'' = VStr ''Bodega OPL'' \<and>
     snd (rows (s' 0) ! 1) ''CODIGO WMS'' = VStr ''00417'' \<and>
     s' 7 = ex_store 7"
proof -
  obtain s' result where
    run: "merge_inventories ex_store [(''OPL'', 0), (''MOBU'', 1)] = (s', result)"
    by (cases "merge_inventories ex_store [(''OPL'', 0), (''MOBU'', 1)]")
  have e1: "0 < length [(''OPL'', 0::nat), (''MOBU'', 1)]" by simp
  have e2: "[(''OPL'', 0::nat), (''MOBU'', 1)] ! 0 = (''OPL'', 0)" by simp
  have e3: "\<forall>j. 0 < j \<and> j < length [(''OPL'', 0::nat), (''MOBU'', 1)]
              \<longrightarrow> snd ([(''OPL'', 0::nat), (''MOBU'', 1)] ! j) \<noteq> 0"
    by (auto simp: less_Suc_eq)
  note t = merge_inventories_mutates_in_place[OF run e1 e2 e3]
  from t have c: "columns (s' 0) = [''CODIGO WMS'', ''Bodega'']"
    by (simp add: ex_store_def ex_opl_def)
  from t have i: "map fst (rows (s' 0)) = [0, 1]"
    by (simp add: ex_store_def ex_opl_def)
  from t have cellsk: "\<forall>k < length (rows (ex_store 0)). \<forall>c. snd (rows (s' 0) ! k) c =
            (if c = ''Bodega'' then VStr (bodega_label ''OPL'') else snd (rows (ex_store 0) ! k) c)"
    by blast
  have l: "length (rows (ex_store 0)) = 2" by (simp add: ex_store_def ex_opl_def)
  have v: "snd (rows (s' 0) ! 0) ''Bodega'' = VStr ''Bodega OPL''"
    "snd (rows (s' 0) ! 0) ''CODIGO WMS'' = VInt 1001"
    "snd (rows (s' 0) ! 1) ''Bodega'' = VStr ''Bodega OPL''"
    "snd (rows (s' 0) ! 1) ''CODIGO WMS'' = VStr ''00417''"
    using cellsk l by (simp_all add: bodega_label_known ex_store_def ex_opl_def)
  from t have f: "s' 7 = ex_store 7" by simp
  from run c i v f show ?thesis by (intro exI conjI)
qed

section \<open>Properties of the host name\<close>

text \<open>On the usual host name the function cuts the suffix off, as the specification says.\<close>

lemma get_clean_hostname_usual:
  "get_clean_hostname ''JM-MBP.local'' = ''JM-MBP''"
  "strip_local_suffix ''JM-MBP.local'' = ''JM-MBP''"
  by (simp_all add: get_clean_hostname_def strip_local_suffix_def endswith_def suffix_to_prefix
      replace.simps)

lemma get_clean_hostname_no_suffix:
  "\<not> endswith hostname ''.local'' \<Longrightarrow> get_clean_hostname hostname = hostname"
  by (simp add: get_clean_hostname_def)

text \<open>
  The resolver of the output directory on the second platform: the two known hosts, and
  any other host.
\<close>

lemma get_base_output_path_usual:
  "get_base_output_path ''posix'' ''JM-MBP.local'' = Some ''/Users/j.m./Downloads''"
  "get_base_output_path ''posix'' ''JM-MS'' = Some ''/Users/jm/Downloads''"
  "get_base_output_path ''posix'' ''otro.local'' = None"
  by (simp_all add: get_base_output_path_def get_clean_hostname_def endswith_def suffix_to_prefix
      replace.simps)

text \<open>
  Where the text to replace occurs only at the very end of a string, \<open>replace\<close> cuts
  exactly that occurrence. So on a host name in which \<^verbatim>\<open>.local\<close> occurs once, as the
  suffix, the function and the suffix rule of the specification agree.
\<close>

lemma replace_only_suffix:
  assumes "old \<noteq> []"
    and "\<forall>pre post. base @ old = pre @ old @ post \<longrightarrow> pre = base"
  shows "replace (base @ old) old new = base @ new"
  using assms(2)
proof (induction base)
  case Nil
  have "replace old old new = new @ replace [] old new"
    using assms(1) by (subst replace.simps) simp
  also have "replace [] old new = []"
    using assms(1) by (subst replace.simps) simp
  finally show ?case by simp
next
  case (Cons c base)
  have np: "\<not> prefix old (c # base @ old)"
  proof
    assume "prefix old (c # base @ old)"
    then obtain post where "(c # base) @ old = [] @ old @ post"
      by (auto simp: prefix_def)
    with Cons.prems have "[] = c # base" by blast
    then show False by simp
  qed
  have only: "\<forall>pre post. base @ old = pre @ old @ post \<longrightarrow> pre = base"
  proof (intro allI impI)
    fix pre post
    assume "base @ old = pre @ old @ post"
    then have "(c # base) @ old = (c # pre) @ old @ post" by simp
    with Cons.prems have "c # pre = c # base" by blast
    then show "pre = base" by simp
  qed
  have "replace ((c # base) @ old) old new = c # replace (base @ old) old new"
    using assms(1) np by (subst replace.simps) simp
  then show ?case by (simp add: Cons.IH[OF only])
qed

lemma get_clean_hostname_single_suffix:
  assumes "\<forall>pre post. base @ ''.local'' = pre @ ''.local'' @ post \<longrightarrow> pre = base"
  shows "get_clean_hostname (base @ ''.local'') = base"
    and "strip_local_suffix (base @ ''.local'') = base"
proof -
  have suf: "endswith (base @ ''.local'') ''.local''"
    unfolding endswith_def by (rule suffixI) simp
  have "replace (base @ ''.local'') ''.local'' [] = base @ []"
    using assms by (intro replace_only_suffix) simp_all
  then show "get_clean_hostname (base @ ''.local'') = base"
    by (simp add: get_clean_hostname_def suf)
  show "strip_local_suffix (base @ ''.local'') = base"
    by (simp add: strip_local_suffix_def suf)
qed

text \<open>
  C5. The claim is that only one trailing \<^verbatim>\<open>.local\<close> is removed and no occurrence inside
  the name is altered. Line 14 tests for the suffix, but line 15 calls \<^verbatim>\<open>replace\<close>, which
  removes every occurrence: on the host name \<^verbatim>\<open>mini.localdomain.local\<close> the function
  answers \<^verbatim>\<open>minidomain\<close>, where cutting the suffix gives \<^verbatim>\<open>mini.localdomain\<close>.
\<close>

theorem get_clean_hostname_interior_occurrence:
  "get_clean_hostname ''mini.localdomain.local'' = ''minidomain'' \<and>
   strip_local_suffix ''mini.localdomain.local'' = ''mini.localdomain''"
  by (simp add: get_clean_hostname_def strip_local_suffix_def endswith_def suffix_to_prefix
      replace.simps)

section \<open>Properties of the loader\<close>

text \<open>
  C6. For every path and whatever the surroundings answer, the loader returns normally.
  If the path does not exist it prints \<^verbatim>\<open>File not found\<close> with the path and returns
  nothing; if the path exists and the parser raises, it prints the path with the message
  of the exception and returns nothing; if the parser answers a table, it returns that
  table and prints the path.
\<close>

theorem read_excel_file_never_raises:
  "\<exists>r out. read_excel_file env file_path = (Inr r, out) \<and>
     (\<not> path_exists env file_path \<longrightarrow>
        r = None \<and> out = [''File not found: '' @ file_path]) \<and>
     (\<forall>e. path_exists env file_path \<and> pd_read_excel env file_path = Inl e \<longrightarrow>
        r = None \<and> out = [''Error reading '' @ file_path @ '': '' @ exn_msg e]) \<and>
     (\<forall>df. path_exists env file_path \<and> pd_read_excel env file_path = Inr df \<longrightarrow>
        r = Some df \<and> out = [''Successfully loaded: '' @ file_path])"
  by (cases "pd_read_excel env file_path") (simp_all add: read_excel_file_def)

theorem read_excel_file_never_raises_witness:
  "read_excel_file ex_env ''/tmp/missing.xlsx'' =
     (Inr None, [''File not found: /tmp/missing.xlsx'']) \<and>
   read_excel_file ex_env ''/tmp/notes.txt'' =
     (Inr None, [''Error reading /tmp/notes.txt: File is not a zip file'']) \<and>
   read_excel_file ex_env ex_opl_path =
     (Inr (Some ex_opl), [''Successfully loaded: '' @ ex_opl_path])"
proof -
  have a: "\<not> path_exists ex_env ''/tmp/missing.xlsx''"
    by (simp add: ex_env_def ex_opl_path_def ex_mobu_path_def)
  have b: "path_exists ex_env ''/tmp/notes.txt'' \<and>
           pd_read_excel ex_env ''/tmp/notes.txt'' = Inl (Exn ''BadZipFile'' ''File is not a zip file'')"
    by (simp add: ex_env_def ex_opl_path_def ex_mobu_path_def)
  have c: "path_exists ex_env ex_opl_path \<and> pd_read_excel ex_env ex_opl_path = Inr ex_opl"
    by (simp add: ex_env_def)
  from read_excel_file_never_raises[of ex_env "''/tmp/missing.xlsx''"] a
  have 1: "read_excel_file ex_env ''/tmp/missing.xlsx'' =
     (Inr None, [''File not found: /tmp/missing.xlsx''])"
    by auto
  from read_excel_file_never_raises[of ex_env "''/tmp/notes.txt''"] b
  have 2: "read_excel_file ex_env ''/tmp/notes.txt'' =
     (Inr None, [''Error reading /tmp/notes.txt: File is not a zip file''])"
    by auto
  from read_excel_file_never_raises[of ex_env ex_opl_path] c
  have 3: "read_excel_file ex_env ex_opl_path =
     (Inr (Some ex_opl), [''Successfully loaded: '' @ ex_opl_path])"
    by auto
  from 1 2 3 show ?thesis by simp
qed

section \<open>Properties of the collector\<close>

lemma get_base_path_known:
  assumes "w \<in> {''OPL'', ''E'', ''MOBU''}"
  shows "\<exists>b. get_base_path os w = Some b"
  using assms by (auto simp: get_base_path_def upper_known)

lemma file_name_known:
  assumes "inventory_type \<in> {''LATA'', ''PREFORMA'', ''PT''}" and "w \<in> {''OPL'', ''E'', ''MOBU''}"
  shows "\<exists>files f. map_of inventory_files inventory_type = Some files \<and>
           map_of files w = Some f \<and> f \<noteq> []"
  using assms by (auto simp: inventory_files_def)

lemma known_types: "fst ` set inventory_files = {''LATA'', ''PREFORMA'', ''PT''}"
  by (auto simp: inventory_files_def)

lemma read_excel_file_Inr: "\<exists>r printed. read_excel_file env p = (Inr r, printed)"
  by (cases "pd_read_excel env p") (simp_all add: read_excel_file_def)

text \<open>
  One turn of the loop on a known inventory type and a known warehouse: no exception, and
  the warehouse is entered exactly when its file loaded. A failing directory listing
  changes only what is printed.
\<close>

lemma visit_warehouse_known:
  assumes it: "inventory_type \<in> {''LATA'', ''PREFORMA'', ''PT''}" and w: "w \<in> {''OPL'', ''E'', ''MOBU''}"
  shows "\<exists>out'. visit_warehouse env inventory_type w results out =
           (Inr (case loaded env inventory_type w of
                   None \<Rightarrow> results
                 | Some df \<Rightarrow> dict_set results w df), out')"
proof -
  from get_base_path_known[OF w] obtain b where b: "get_base_path (os_name env) w = Some b"
    by blast
  from file_name_known[OF it w] obtain files f where
    f: "map_of inventory_files inventory_type = Some files" "map_of files w = Some f" "f \<noteq> []"
    by blast
  obtain r printed where r: "read_excel_file env (os_path_join (os_name env) b f) = (Inr r, printed)"
    using read_excel_file_Inr by blast
  have l: "loaded env inventory_type w = r"
    by (simp add: loaded_def warehouse_file_def b f r)
  show ?thesis
    by (cases r) (simp_all add: visit_warehouse_def Let_def b f r l)
qed

lemma dict_set_new: "k \<notin> fst ` set kvs \<Longrightarrow> dict_set kvs k v = kvs @ [(k, v)]"
  by (induction kvs) auto

lemma collect_known:
  assumes it: "inventory_type \<in> {''LATA'', ''PREFORMA'', ''PT''}"
    and ws: "set ws \<subseteq> {''OPL'', ''E'', ''MOBU''}" "distinct ws"
    and fresh: "set ws \<inter> fst ` set results = {}"
  shows "\<exists>out'. collect env inventory_type ws results out =
           (Inr (results @ List.map_filter (\<lambda>w. map_option (Pair w) (loaded env inventory_type w)) ws),
            out')"
  using ws fresh
proof (induction ws arbitrary: results out)
  case Nil
  then show ?case by simp
next
  case (Cons w ws)
  from Cons.prems have w: "w \<in> {''OPL'', ''E'', ''MOBU''}" by simp
  from visit_warehouse_known[OF it w] obtain out1 where
    v: "visit_warehouse env inventory_type w results out =
           (Inr (case loaded env inventory_type w of
                   None \<Rightarrow> results
                 | Some df \<Rightarrow> dict_set results w df), out1)"
    by blast
  show ?case
  proof (cases "loaded env inventory_type w")
    case None
    from Cons.prems have "\<exists>out'. collect env inventory_type ws results out1 =
           (Inr (results @ List.map_filter (\<lambda>w. map_option (Pair w) (loaded env inventory_type w)) ws),
            out')"
      by (intro Cons.IH) auto
    then show ?thesis
      using v None by simp
  next
    case (Some df)
    from Cons.prems have new: "w \<notin> fst ` set results" by auto
    then have d: "dict_set results w df = results @ [(w, df)]" by (rule dict_set_new)
    from Cons.prems have "\<exists>out'. collect env inventory_type ws (results @ [(w, df)]) out1 =
           (Inr ((results @ [(w, df)]) @
                 List.map_filter (\<lambda>w. map_option (Pair w) (loaded env inventory_type w)) ws),
            out')"
      by (intro Cons.IH) auto
    then show ?thesis
      using v Some d by simp
  qed
qed

text \<open>
  C7. For an inventory type among \<^verbatim>\<open>LATA\<close>, \<^verbatim>\<open>PREFORMA\<close> and \<^verbatim>\<open>PT\<close> the collector returns
  normally, and its dictionary holds, in the order \<^verbatim>\<open>OPL\<close>, \<^verbatim>\<open>E\<close>, \<^verbatim>\<open>MOBU\<close>, exactly the
  warehouses whose file loaded, each with its table. For each of the three warehouses the
  path resolves, and the file loads exactly when the path exists and the parser answers a
  table. For any other inventory type the collector returns the empty dictionary and
  prints one warning.
\<close>

theorem process_inventory_collects:
  "(inventory_type \<in> {''LATA'', ''PREFORMA'', ''PT''} \<longrightarrow>
      (\<exists>out. process_inventory env inventory_type =
         (Inr (List.map_filter (\<lambda>w. map_option (Pair w) (loaded env inventory_type w))
                 [''OPL'', ''E'', ''MOBU'']), out)) \<and>
      (\<forall>w \<in> {''OPL'', ''E'', ''MOBU''}.
         \<exists>p. warehouse_file (os_name env) inventory_type w = Some p \<and>
             loaded env inventory_type w =
               (if path_exists env p then
                  (case pd_read_excel env p of Inl e \<Rightarrow> None | Inr df \<Rightarrow> Some df)
                else None))) \<and>
   (inventory_type \<notin> {''LATA'', ''PREFORMA'', ''PT''} \<longrightarrow>
      process_inventory env inventory_type =
        (Inr [], [''Unknown inventory type: '' @ inventory_type]))"
proof (intro conjI impI)
  assume it: "inventory_type \<in> {''LATA'', ''PREFORMA'', ''PT''}"
  have "\<exists>out'. collect env inventory_type [''OPL'', ''E'', ''MOBU''] [] [] =
           (Inr ([] @ List.map_filter (\<lambda>w. map_option (Pair w) (loaded env inventory_type w))
                        [''OPL'', ''E'', ''MOBU'']), out')"
    by (rule collect_known[OF it]) simp_all
  then show "\<exists>out. process_inventory env inventory_type =
         (Inr (List.map_filter (\<lambda>w. map_option (Pair w) (loaded env inventory_type w))
                 [''OPL'', ''E'', ''MOBU'']), out)"
    using it by (simp add: process_inventory_def known_types)
  show "\<forall>w \<in> {''OPL'', ''E'', ''MOBU''}.
         \<exists>p. warehouse_file (os_name env) inventory_type w = Some p \<and>
             loaded env inventory_type w =
               (if path_exists env p then
                  (case pd_read_excel env p of Inl e \<Rightarrow> None | Inr df \<Rightarrow> Some df)
                else None)"
  proof
    fix w :: string
    assume w: "w \<in> {''OPL'', ''E'', ''MOBU''}"
    from get_base_path_known[OF w] obtain b where b: "get_base_path (os_name env) w = Some b"
      by blast
    from file_name_known[OF it w] obtain files f where
      f: "map_of inventory_files inventory_type = Some files" "map_of files w = Some f" "f \<noteq> []"
      by blast
    have p: "warehouse_file (os_name env) inventory_type w = Some (os_path_join (os_name env) b f)"
      by (simp add: warehouse_file_def b f)
    have "loaded env inventory_type w =
               (if path_exists env (os_path_join (os_name env) b f) then
                  (case pd_read_excel env (os_path_join (os_name env) b f) of
                     Inl e \<Rightarrow> None | Inr df \<Rightarrow> Some df)
                else None)"
      by (cases "pd_read_excel env (os_path_join (os_name env) b f)")
         (simp_all add: loaded_def p read_excel_file_def)
    with p show "\<exists>p. warehouse_file (os_name env) inventory_type w = Some p \<and>
             loaded env inventory_type w =
               (if path_exists env p then
                  (case pd_read_excel env p of Inl e \<Rightarrow> None | Inr df \<Rightarrow> Some df)
                else None)"
      by blast
  qed
next
  assume "inventory_type \<notin> {''LATA'', ''PREFORMA'', ''PT''}"
  then show "process_inventory env inventory_type =
        (Inr [], [''Unknown inventory type: '' @ inventory_type])"
    by (simp add: process_inventory_def known_types)
qed

text \<open>
  The example of the claim: the file of \<^verbatim>\<open>E\<close> is missing, the other two load, and no
  directory can be listed.
\<close>

lemma ex_files:
  "warehouse_file ''posix'' ''LATA'' ''OPL'' = Some ex_opl_path"
  "warehouse_file ''posix'' ''LATA'' ''MOBU'' = Some ex_mobu_path"
  "warehouse_file ''posix'' ''LATA'' ''E'' =
     Some ''/Volumes/Bodega General/LIVSMART/BODEGA E/STOCK ACTUALIZADO - BODEGA E/INVENTARIO LATA VACIA 2025 BODE.xlsx''"
  by (simp_all add: warehouse_file_def get_base_path_def upper_known inventory_files_def
      os_path_join_def ex_opl_path_def ex_mobu_path_def)

lemma ex_loaded:
  "loaded ex_env ''LATA'' ''OPL'' = Some ex_opl"
  "loaded ex_env ''LATA'' ''E'' = None"
  "loaded ex_env ''LATA'' ''MOBU'' = Some ex_mobu"
proof -
  have os: "os_name ex_env = ''posix''" by (simp add: ex_env_def)
  show "loaded ex_env ''LATA'' ''OPL'' = Some ex_opl"
    by (simp add: loaded_def os ex_files read_excel_file_def) (simp add: ex_env_def)
  show "loaded ex_env ''LATA'' ''MOBU'' = Some ex_mobu"
    by (simp add: loaded_def os ex_files read_excel_file_def)
       (simp add: ex_env_def ex_opl_path_def ex_mobu_path_def)
  show "loaded ex_env ''LATA'' ''E'' = None"
    by (simp add: loaded_def os ex_files read_excel_file_def)
       (simp add: ex_env_def ex_opl_path_def ex_mobu_path_def)
qed

theorem process_inventory_collects_witness:
  "(\<exists>out. process_inventory ex_env ''LATA'' = (Inr [(''OPL'', ex_opl), (''MOBU'', ex_mobu)], out)) \<and>
   process_inventory ex_env ''VIDRIO'' = (Inr [], [''Unknown inventory type: VIDRIO''])"
proof -
  have k: "''LATA'' \<in> {''LATA'', ''PREFORMA'', ''PT''}" by simp
  have u: "''VIDRIO'' \<notin> {''LATA'', ''PREFORMA'', ''PT''}" by simp
  from process_inventory_collects[of "''LATA''" ex_env] k
  have "\<exists>out. process_inventory ex_env ''LATA'' =
         (Inr (List.map_filter (\<lambda>w. map_option (Pair w) (loaded ex_env ''LATA'' w))
                 [''OPL'', ''E'', ''MOBU'']), out)"
    by blast
  then have 1: "\<exists>out. process_inventory ex_env ''LATA'' = (Inr [(''OPL'', ex_opl), (''MOBU'', ex_mobu)], out)"
    by (simp add: ex_loaded)
  from process_inventory_collects[of "''VIDRIO''" ex_env] u
  have 2: "process_inventory ex_env ''VIDRIO'' = (Inr [], [''Unknown inventory type: VIDRIO''])"
    by simp
  from 1 2 show ?thesis by (rule conjI)
qed

section \<open>Properties of the formatter\<close>

subsection \<open>Writing cells in a loop\<close>

lemma upd_cell_cells:
  "cells (upd_cell r c f ws) r' c' = (if r' = r \<and> c' = c then f (cells ws r c) else cells ws r' c')"
  by (simp add: upd_cell_def)

lemma upd_cell_dims:
  "max_row (upd_cell r c f ws) = max_row ws"
  "max_column (upd_cell r c f ws) = max_column ws"
  "column_width (upd_cell r c f ws) = column_width ws"
  by (simp_all add: upd_cell_def)

lemma fold_cols_dims:
  "max_row (fold (\<lambda>c. upd_cell r c f) cs ws) = max_row ws"
  "max_column (fold (\<lambda>c. upd_cell r c f) cs ws) = max_column ws"
  "column_width (fold (\<lambda>c. upd_cell r c f) cs ws) = column_width ws"
  by (induction cs arbitrary: ws) (simp_all add: upd_cell_dims)

lemma fold_rows_dims:
  "max_row (fold (\<lambda>r. upd_cell r c f) rs ws) = max_row ws"
  "max_column (fold (\<lambda>r. upd_cell r c f) rs ws) = max_column ws"
  "column_width (fold (\<lambda>r. upd_cell r c f) rs ws) = column_width ws"
  by (induction rs arbitrary: ws) (simp_all add: upd_cell_dims)

lemma fold_all_dims:
  "max_row (fold (\<lambda>r. fold (\<lambda>c. upd_cell r c f) cs) rs ws) = max_row ws"
  "max_column (fold (\<lambda>r. fold (\<lambda>c. upd_cell r c f) cs) rs ws) = max_column ws"
  "column_width (fold (\<lambda>r. fold (\<lambda>c. upd_cell r c f) cs) rs ws) = column_width ws"
  by (induction rs arbitrary: ws) (simp_all add: fold_cols_dims)

lemma fold_cols_cells:
  "distinct cs \<Longrightarrow>
   cells (fold (\<lambda>c. upd_cell r c f) cs ws) r' c' =
     (if r' = r \<and> c' \<in> set cs then f (cells ws r' c') else cells ws r' c')"
  by (induction cs arbitrary: ws) (auto simp: upd_cell_cells)

lemma fold_rows_cells:
  "distinct rs \<Longrightarrow>
   cells (fold (\<lambda>r. upd_cell r c f) rs ws) r' c' =
     (if c' = c \<and> r' \<in> set rs then f (cells ws r' c') else cells ws r' c')"
  by (induction rs arbitrary: ws) (auto simp: upd_cell_cells)

lemma fold_all_cells:
  "distinct rs \<Longrightarrow> distinct cs \<Longrightarrow>
   cells (fold (\<lambda>r. fold (\<lambda>c. upd_cell r c f) cs) rs ws) r' c' =
     (if r' \<in> set rs \<and> c' \<in> set cs then f (cells ws r' c') else cells ws r' c')"
  by (induction rs arbitrary: ws) (auto simp: fold_cols_cells)

lemma format_header_dims:
  "max_row (format_header ws) = max_row ws"
  "max_column (format_header ws) = max_column ws"
  "column_width (format_header ws) = column_width ws"
  by (simp_all add: format_header_def fold_cols_dims)

lemma format_header_cells:
  "cvalue (cells (format_header ws) r c) = cvalue (cells ws r c)"
  "cell_fill (cells (format_header ws) r c) = cell_fill (cells ws r c)"
  by (simp_all add: format_header_def fold_cols_cells del: upt_Suc)

lemma apply_fonts_dims:
  "max_row (apply_fonts ws) = max_row ws"
  "max_column (apply_fonts ws) = max_column ws"
  "column_width (apply_fonts ws) = column_width ws"
  by (simp_all add: apply_fonts_def fold_cols_dims fold_all_dims)

lemma apply_fonts_cells:
  "cvalue (cells (apply_fonts ws) r c) = cvalue (cells ws r c)"
  "cell_fill (cells (apply_fonts ws) r c) = cell_fill (cells ws r c)"
  by (simp_all add: apply_fonts_def fold_cols_cells fold_all_cells del: upt_Suc)

lemma column_max_length_cong:
  assumes "max_row ws' = max_row ws" and "\<And>r. cvalue (cells ws' r c) = cvalue (cells ws r c)"
  shows "column_max_length ws' c = column_max_length ws c"
  by (simp add: column_max_length_def assms)

lemma set_column_width_same:
  "cells (set_column_width c w) = cells w"
  "max_row (set_column_width c w) = max_row w"
  "max_column (set_column_width c w) = max_column w"
  by (simp_all add: set_column_width_def)

lemma fold_widths_same:
  "cells (fold set_column_width cs w) = cells w"
  "max_row (fold set_column_width cs w) = max_row w"
  "max_column (fold set_column_width cs w) = max_column w"
  by (induction cs arbitrary: w) (simp_all add: set_column_width_same)

lemma column_max_length_set_width:
  "column_max_length (set_column_width c w) k = column_max_length w k"
  by (simp add: column_max_length_def set_column_width_same)

lemma fold_widths:
  "column_width (fold set_column_width cs w) c' =
     (if c' \<in> set cs then Some (column_max_length w c' + 2) else column_width w c')"
proof (induction cs arbitrary: w)
  case Nil
  show ?case by simp
next
  case (Cons c cs)
  have w: "column_width (set_column_width c w) c' =
          (if c' = c then Some (column_max_length w c' + 2) else column_width w c')"
    by (simp add: set_column_width_def)
  have "column_width (fold set_column_width (c # cs) w) c' =
          (if c' \<in> set cs then Some (column_max_length (set_column_width c w) c' + 2)
           else column_width (set_column_width c w) c')"
    by (simp add: Cons.IH)
  also have "\<dots> = (if c' \<in> set (c # cs) then Some (column_max_length w c' + 2)
                     else column_width w c')"
    unfolding w column_max_length_set_width by auto
  finally show ?case .
qed

lemma adjust_widths_dims:
  "cells (adjust_widths ws) = cells ws"
  "max_row (adjust_widths ws) = max_row ws"
  "max_column (adjust_widths ws) = max_column ws"
  by (simp_all add: adjust_widths_def fold_widths_same)

lemma adjust_widths_width:
  "column_width (adjust_widths ws) c =
     (if 1 \<le> c \<and> c \<le> max_column ws then Some (column_max_length ws c + 2) else column_width ws c)"
  by (auto simp: adjust_widths_def fold_widths simp del: upt_Suc)

subsection \<open>Finding the headed columns\<close>

text \<open>
  The search answers a column exactly when it is the last one, among the columns 1 to
  \<^verbatim>\<open>max_column\<close>, whose header cell holds the text.
\<close>

lemma find_columns_cong:
  assumes "max_column ws' = max_column ws" and "\<And>c. cvalue (cells ws' 1 c) = cvalue (cells ws 1 c)"
  shows "find_columns ws' = find_columns ws"
proof -
  have "note_header ws' c cols = note_header ws c cols" for c cols
    using assms(2)[of c] by (cases cols) simp
  then have "note_header ws' = note_header ws"
    by (simp add: fun_eq_iff)
  then show ?thesis by (simp add: find_columns_def assms)
qed

lemma find_fold_Suc:
  "fold (note_header ws) [1..<Suc (Suc n)] init =
     note_header ws (Suc n) (fold (note_header ws) [1..<Suc n] init)"
  by simp

lemma bodega_col_Some:
  "fst (fold (note_header ws) [1..<Suc n] (None, None)) = Some c \<longleftrightarrow>
     1 \<le> c \<and> c \<le> n \<and> cvalue (cells ws 1 c) = VStr ''Bodega'' \<and>
     (\<forall>c'. c < c' \<and> c' \<le> n \<longrightarrow> cvalue (cells ws 1 c') \<noteq> VStr ''Bodega'')"
proof (induction n arbitrary: c)
  case 0
  show ?case by simp
next
  case (Suc n)
  obtain b k where p: "fold (note_header ws) [1..<Suc n] (None, None) = (b, k)"
    by (cases "fold (note_header ws) [1..<Suc n] (None, None)")
  have b: "b = Some c \<longleftrightarrow>
     1 \<le> c \<and> c \<le> n \<and> cvalue (cells ws 1 c) = VStr ''Bodega'' \<and>
     (\<forall>c'. c < c' \<and> c' \<le> n \<longrightarrow> cvalue (cells ws 1 c') \<noteq> VStr ''Bodega'')" for c
    using Suc.IH[of c] p by simp
  show ?case
  proof (cases "cvalue (cells ws 1 (Suc n)) = VStr ''Bodega''")
    case True
    then have "fst (fold (note_header ws) [1..<Suc (Suc n)] (None, None)) = Some (Suc n)"
      unfolding find_fold_Suc p by simp
    moreover have "Suc n = c \<longleftrightarrow>
       1 \<le> c \<and> c \<le> Suc n \<and> cvalue (cells ws 1 c) = VStr ''Bodega'' \<and>
       (\<forall>c'. c < c' \<and> c' \<le> Suc n \<longrightarrow> cvalue (cells ws 1 c') \<noteq> VStr ''Bodega'')"
      using True by (auto simp: le_Suc_eq)
    ultimately show ?thesis by simp
  next
    case False
    then have "fst (fold (note_header ws) [1..<Suc (Suc n)] (None, None)) = b"
      unfolding find_fold_Suc p by simp
    moreover have "b = Some c \<longleftrightarrow>
       1 \<le> c \<and> c \<le> Suc n \<and> cvalue (cells ws 1 c) = VStr ''Bodega'' \<and>
       (\<forall>c'. c < c' \<and> c' \<le> Suc n \<longrightarrow> cvalue (cells ws 1 c') \<noteq> VStr ''Bodega'')"
      unfolding b using False by (auto simp: le_Suc_eq)
    ultimately show ?thesis by simp
  qed
qed


lemma bodega_col_None:
  "fst (fold (note_header ws) [1..<Suc n] (None, None)) = None \<longleftrightarrow>
     (\<forall>c. 1 \<le> c \<and> c \<le> n \<longrightarrow> cvalue (cells ws 1 c) \<noteq> VStr ''Bodega'')"
proof (induction n)
  case 0
  show ?case by simp
next
  case (Suc n)
  obtain b k where p: "fold (note_header ws) [1..<Suc n] (None, None) = (b, k)"
    by (cases "fold (note_header ws) [1..<Suc n] (None, None)")
  show ?case
    unfolding find_fold_Suc p using Suc.IH p by (auto simp: le_Suc_eq)
qed


subsection \<open>The whole formatter, cell by cell\<close>

lemma bodega_fill_cell:
  "cvalue (bodega_fill x) = cvalue x"
  "cell_fill (bodega_fill x) =
     (if cvalue x = VStr ''Bodega OPL'' then Some light_blue
      else if cvalue x = VStr ''Bodega E'' then Some light_green
      else if cvalue x = VStr ''Bodegas MOBU'' then Some light_salmon
      else cell_fill x)"
  by (simp_all add: bodega_fill_def)

lemma to_string_cell_cell:
  "cell_fill (to_string_cell x) = cell_fill x"
  "cvalue (to_string_cell x) =
     (case cvalue x of
        VNone \<Rightarrow> VNone
      | VStr s \<Rightarrow> VStr s
      | VInt n \<Rightarrow> VStr (str_int n)
      | VBool b \<Rightarrow> VStr (if b then ''True'' else ''False''))"
  by (simp_all add: to_string_cell_def split: cell_value.splits)

lemma color_bodega_dims:
  "max_row (color_bodega b ws) = max_row ws"
  "max_column (color_bodega b ws) = max_column ws"
  "column_width (color_bodega b ws) = column_width ws"
  by (simp_all add: color_bodega_def fold_rows_dims split: option.splits)

lemma color_bodega_cells:
  "cells (color_bodega b ws) r c =
     (if b = Some c \<and> 2 \<le> r \<and> r \<le> max_row ws then bodega_fill (cells ws r c)
      else cells ws r c)"
  by (auto simp: color_bodega_def fold_rows_cells simp del: upt_Suc split: option.splits)

lemma normalize_codigo_dims:
  "max_row (normalize_codigo k ws) = max_row ws"
  "max_column (normalize_codigo k ws) = max_column ws"
  "column_width (normalize_codigo k ws) = column_width ws"
  by (simp_all add: normalize_codigo_def fold_rows_dims split: option.splits)

lemma normalize_codigo_cells:
  "cells (normalize_codigo k ws) r c =
     (if k = Some c \<and> 2 \<le> r \<and> r \<le> max_row ws then to_string_cell (cells ws r c)
      else cells ws r c)"
  by (auto simp: normalize_codigo_def fold_rows_cells simp del: upt_Suc split: option.splits)

lemma restyled_dims:
  "max_row (apply_fonts (adjust_widths (format_header ws))) = max_row ws"
  "max_column (apply_fonts (adjust_widths (format_header ws))) = max_column ws"
  by (simp_all add: apply_fonts_dims adjust_widths_dims format_header_dims)

lemma restyled_cells:
  "cvalue (cells (apply_fonts (adjust_widths (format_header ws))) r c) = cvalue (cells ws r c)"
  "cell_fill (cells (apply_fonts (adjust_widths (format_header ws))) r c) = cell_fill (cells ws r c)"
  by (simp_all add: apply_fonts_cells adjust_widths_dims format_header_cells)

lemma restyled_width:
  "column_width (apply_fonts (adjust_widths (format_header ws))) c =
     (if 1 \<le> c \<and> c \<le> max_column ws then Some (column_max_length ws c + 2)
      else column_width ws c)"
proof -
  have "column_max_length (format_header ws) c = column_max_length ws c"
    by (rule column_max_length_cong) (simp_all add: format_header_dims format_header_cells)
  then show ?thesis
    by (simp add: apply_fonts_dims adjust_widths_width format_header_dims)
qed

lemma restyled_find_columns:
  "find_columns (apply_fonts (adjust_widths (format_header ws))) = find_columns ws"
  by (rule find_columns_cong) (simp_all add: restyled_dims restyled_cells)

lemma format_excel_file_eq:
  "format_excel_file ws =
     normalize_codigo (snd (find_columns ws))
       (color_bodega (fst (find_columns ws))
          (apply_fonts (adjust_widths (format_header ws))))"
  by (simp add: format_excel_file_def Let_def split_def restyled_find_columns)

lemma format_excel_file_fill:
  "cell_fill (cells (format_excel_file ws) r c) =
     (if fst (find_columns ws) = Some c \<and> 2 \<le> r \<and> r \<le> max_row ws then
        (if cvalue (cells ws r c) = VStr ''Bodega OPL'' then Some light_blue
         else if cvalue (cells ws r c) = VStr ''Bodega E'' then Some light_green
         else if cvalue (cells ws r c) = VStr ''Bodegas MOBU'' then Some light_salmon
         else cell_fill (cells ws r c))
      else cell_fill (cells ws r c))"
  by (simp add: format_excel_file_eq normalize_codigo_cells color_bodega_cells color_bodega_dims
      restyled_dims restyled_cells to_string_cell_cell bodega_fill_cell)


lemma format_excel_file_width:
  "column_width (format_excel_file ws) c =
     (if 1 \<le> c \<and> c \<le> max_column ws then Some (column_max_length ws c + 2)
      else column_width ws c)"
  by (simp add: format_excel_file_eq normalize_codigo_dims color_bodega_dims restyled_width)

text \<open>
  C8. Let \<open>col\<close> be the column whose header cell is the text \<^verbatim>\<open>Bodega\<close> (the last such
  column, should several headers carry the text; the loop of lines 234 to 238 keeps the
  last). Then in every data row, 2 to \<^verbatim>\<open>max_row\<close>, the cell of that column ends with the
  light blue fill when its value is \<^verbatim>\<open>Bodega OPL\<close>, light green when \<^verbatim>\<open>Bodega E\<close>, light
  salmon when \<^verbatim>\<open>Bodegas MOBU\<close>, and with the fill it had, none in a freshly written file,
  for any other value or no value; every other cell keeps its fill. Such a column exists
  whenever some header cell is \<^verbatim>\<open>Bodega\<close>. If no header cell is \<^verbatim>\<open>Bodega\<close>, no cell
  changes its fill.
\<close>

theorem format_excel_file_bodega_fill:
  "(\<forall>col. 1 \<le> col \<and> col \<le> max_column ws \<and> cvalue (cells ws 1 col) = VStr ''Bodega'' \<and>
          (\<forall>c'. col < c' \<and> c' \<le> max_column ws \<longrightarrow> cvalue (cells ws 1 c') \<noteq> VStr ''Bodega'') \<longrightarrow>
      (\<forall>r c. cell_fill (cells (format_excel_file ws) r c) =
         (if c = col \<and> 2 \<le> r \<and> r \<le> max_row ws then
            (if cvalue (cells ws r c) = VStr ''Bodega OPL'' then Some light_blue
             else if cvalue (cells ws r c) = VStr ''Bodega E'' then Some light_green
             else if cvalue (cells ws r c) = VStr ''Bodegas MOBU'' then Some light_salmon
             else cell_fill (cells ws r c))
          else cell_fill (cells ws r c)))) \<and>
   ((\<exists>c. 1 \<le> c \<and> c \<le> max_column ws \<and> cvalue (cells ws 1 c) = VStr ''Bodega'') \<longrightarrow>
      (\<exists>col. 1 \<le> col \<and> col \<le> max_column ws \<and> cvalue (cells ws 1 col) = VStr ''Bodega'' \<and>
          (\<forall>c'. col < c' \<and> c' \<le> max_column ws \<longrightarrow> cvalue (cells ws 1 c') \<noteq> VStr ''Bodega''))) \<and>
   ((\<forall>c. 1 \<le> c \<and> c \<le> max_column ws \<longrightarrow> cvalue (cells ws 1 c) \<noteq> VStr ''Bodega'') \<longrightarrow>
      (\<forall>r c. cell_fill (cells (format_excel_file ws) r c) = cell_fill (cells ws r c)))"
proof (intro conjI allI impI)
  fix col r c
  assume "1 \<le> col \<and> col \<le> max_column ws \<and> cvalue (cells ws 1 col) = VStr ''Bodega'' \<and>
          (\<forall>c'. col < c' \<and> c' \<le> max_column ws \<longrightarrow> cvalue (cells ws 1 c') \<noteq> VStr ''Bodega'')"
  then have "fst (find_columns ws) = Some col"
    unfolding find_columns_def bodega_col_Some by simp
  then show "cell_fill (cells (format_excel_file ws) r c) =
         (if c = col \<and> 2 \<le> r \<and> r \<le> max_row ws then
            (if cvalue (cells ws r c) = VStr ''Bodega OPL'' then Some light_blue
             else if cvalue (cells ws r c) = VStr ''Bodega E'' then Some light_green
             else if cvalue (cells ws r c) = VStr ''Bodegas MOBU'' then Some light_salmon
             else cell_fill (cells ws r c))
          else cell_fill (cells ws r c))"
    by (auto simp: format_excel_file_fill)
next
  assume "\<exists>c. 1 \<le> c \<and> c \<le> max_column ws \<and> cvalue (cells ws 1 c) = VStr ''Bodega''"
  then have "fst (find_columns ws) \<noteq> None"
    unfolding find_columns_def bodega_col_None by simp
  then obtain col where "fst (find_columns ws) = Some col" by auto
  then show "\<exists>col. 1 \<le> col \<and> col \<le> max_column ws \<and> cvalue (cells ws 1 col) = VStr ''Bodega'' \<and>
          (\<forall>c'. col < c' \<and> c' \<le> max_column ws \<longrightarrow> cvalue (cells ws 1 c') \<noteq> VStr ''Bodega'')"
    unfolding find_columns_def bodega_col_Some by blast
next
  fix r c
  assume "\<forall>c. 1 \<le> c \<and> c \<le> max_column ws \<longrightarrow> cvalue (cells ws 1 c) \<noteq> VStr ''Bodega''"
  then have "fst (find_columns ws) = None"
    unfolding find_columns_def bodega_col_None by simp
  then show "cell_fill (cells (format_excel_file ws) r c) = cell_fill (cells ws r c)"
    by (simp add: format_excel_file_fill)
qed


subsection \<open>Decimal text and column widths\<close>

text \<open>\<open>str_nat\<close> writes a number in decimal: reading the digits back gives the number.\<close>

lemma digit_char_value: "d < 10 \<Longrightarrow> of_char (digit_char d) - 48 = d"
proof -
  assume "d < 10"
  then have "d = 0 \<or> d = 1 \<or> d = 2 \<or> d = 3 \<or> d = 4 \<or> d = 5 \<or> d = 6 \<or> d = 7 \<or>
    d = 8 \<or> d = 9"
    by arith
  then show ?thesis
    by (elim disjE) (simp_all add: digit_char_def)
qed

lemma decimal_value_snoc: "decimal_value (s @ [ch]) = 10 * decimal_value s + (of_char ch - 48)"
  by (simp add: decimal_value_def)

lemma str_nat_decimal: "decimal_value (str_nat n) = n"
proof (induction n rule: str_nat.induct)
  case (1 n)
  show ?case
  proof (cases "n < 10")
    case True
    then show ?thesis
      by (subst str_nat.simps) (simp add: decimal_value_def digit_char_value)
  next
    case False
    then have "decimal_value (str_nat n) =
                 10 * decimal_value (str_nat (n div 10)) + (of_char (digit_char (n mod 10)) - 48)"
      by (subst str_nat.simps) (simp add: decimal_value_snoc)
    also have "\<dots> = 10 * (n div 10) + n mod 10"
      using False by (simp add: "1.IH" digit_char_value)
    finally show ?thesis by simp
  qed
qed


lemma longer_max: "longer v m = (if truthy v then max (length (py_str v)) m else m)"
  by (simp add: longer_def max_def)

lemma fold_longer_spec:
  assumes "\<forall>r \<in> set rs. cvalue (cells ws r c) \<noteq> VNone \<longrightarrow> truthy (cvalue (cells ws r c))"
  shows "fold (\<lambda>r max_length. longer (cvalue (cells ws r c)) max_length) rs a =
         fold max (map (\<lambda>r. length (py_str (cvalue (cells ws r c))))
                     (filter (\<lambda>r. cvalue (cells ws r c) \<noteq> VNone) rs)) a"
  using assms
proof (induction rs arbitrary: a)
  case Nil
  show ?case by simp
next
  case (Cons r rs)
  show ?case
  proof (cases "cvalue (cells ws r c) = VNone")
    case True
    then show ?thesis using Cons by (simp add: longer_max)
  next
    case False
    with Cons.prems have "truthy (cvalue (cells ws r c))" by simp
    then show ?thesis using False Cons by (simp add: longer_max)
  qed
qed

text \<open>
  Where every non-empty cell of a column holds a value that Python counts as true (a
  non-empty string, a number other than 0, \<^verbatim>\<open>True\<close>), the function sets the width the
  specification asks for.
\<close>

lemma width_agrees:
  assumes "\<forall>r. 1 \<le> r \<and> r \<le> max_row ws \<longrightarrow>
             cvalue (cells ws r c) \<noteq> VNone \<longrightarrow> truthy (cvalue (cells ws r c))"
    and "1 \<le> c" "c \<le> max_column ws"
  shows "column_width (format_excel_file ws) c = Some (spec_width ws c)"
proof -
  have "\<forall>r \<in> set [1..<Suc (max_row ws)].
          cvalue (cells ws r c) \<noteq> VNone \<longrightarrow> truthy (cvalue (cells ws r c))"
    using assms(1) by auto
  then have "column_max_length ws c + 2 = spec_width ws c"
    unfolding column_max_length_def spec_width_def by (simp only: fold_longer_spec)
  then show ?thesis
    using assms(2,3) by (simp add: format_excel_file_width)
qed

lemma ex_sheet_dims: "max_row ex_sheet = 4" "max_column ex_sheet = 3"
  by (simp_all add: ex_sheet_def)

lemma ex_sheet_cvalue:
  "cvalue (cells ex_sheet r c) =
     (if 1 \<le> r \<and> r \<le> 4 \<and> 1 \<le> c \<and> c \<le> 3 then ex_values ! (r - 1) ! (c - 1) else VNone)"
  by (simp add: ex_sheet_def blank_cell_def)

lemma ex_sheet_fill: "cell_fill (cells ex_sheet r c) = None"
  by (simp add: ex_sheet_def blank_cell_def)

text \<open>
  C4. The claim is that the width of a column is the longest text of any non-empty cell
  plus 2. Line 217 tests \<^verbatim>\<open>if cell.value:\<close>, which is false not only for an empty cell but
  also for \<^verbatim>\<open>False\<close>, for the number 0 and for the empty string, so such a cell is not
  measured (line 254 of the same function tests \<^verbatim>\<open>is not None\<close>). In the example sheet
  the second column holds the header \<^verbatim>\<open>OK\<close> and the boolean \<^verbatim>\<open>False\<close> in every data row:
  the function sets the width 4, from the header alone, where the longest text of a
  non-empty cell is \<^verbatim>\<open>False\<close>, 5 characters, and the claimed width 7.
\<close>

theorem format_excel_file_width_skips_false:
  "column_width (format_excel_file ex_sheet) 2 = Some 4 \<and> spec_width ex_sheet 2 = 7"
proof -
  have "column_max_length ex_sheet 2 = 2"
    by (simp add: column_max_length_def ex_sheet_dims ex_sheet_cvalue ex_values_def longer_def
        upt_rec)
  then have "column_width (format_excel_file ex_sheet) 2 = Some 4"
    by (simp add: format_excel_file_width ex_sheet_dims)
  moreover have "spec_width ex_sheet 2 = 7"
    by (simp add: spec_width_def ex_sheet_dims ex_sheet_cvalue ex_values_def upt_rec)
  ultimately show ?thesis by simp
qed

subsection \<open>The formatter on the example sheets\<close>

lemma ex_plain_facts:
  "max_row ex_plain = 4" "max_column ex_plain = 3"
  "cvalue (cells ex_plain 1 c) = VStr ''X''"
  "r \<noteq> 1 \<Longrightarrow> cells ex_plain r c = cells ex_sheet r c"
  by (simp_all add: ex_plain_def ex_sheet_def)

theorem format_excel_file_bodega_fill_witness:
  "cell_fill (cells (format_excel_file ex_sheet) 2 3) = Some light_blue \<and>
   cell_fill (cells (format_excel_file ex_sheet) 3 3) = Some light_green \<and>
   cell_fill (cells (format_excel_file ex_sheet) 4 3) = None \<and>
   cell_fill (cells (format_excel_file ex_sheet) 1 3) = None \<and>
   cell_fill (cells (format_excel_file ex_sheet) 2 1) = None \<and>
   cell_fill (cells (format_excel_file ex_plain) 2 3) = None \<and>
   (\<exists>col. 1 \<le> col \<and> col \<le> max_column ex_sheet \<and>
      cvalue (cells ex_sheet 1 col) = VStr ''Bodega'' \<and>
      (\<forall>c'. col < c' \<and> c' \<le> max_column ex_sheet \<longrightarrow>
         cvalue (cells ex_sheet 1 c') \<noteq> VStr ''Bodega''))"
proof -
  have h: "1 \<le> (3::nat) \<and> 3 \<le> max_column ex_sheet \<and> cvalue (cells ex_sheet 1 3) = VStr ''Bodega'' \<and>
          (\<forall>c'. 3 < c' \<and> c' \<le> max_column ex_sheet \<longrightarrow> cvalue (cells ex_sheet 1 c') \<noteq> VStr ''Bodega'')"
    by (simp add: ex_sheet_dims ex_sheet_cvalue ex_values_def)
  note f = format_excel_file_bodega_fill[of ex_sheet, THEN conjunct1, rule_format, OF h]
  have h': "\<forall>c. 1 \<le> c \<and> c \<le> max_column ex_plain \<longrightarrow> cvalue (cells ex_plain 1 c) \<noteq> VStr ''Bodega''"
    using ex_plain_facts(3) by (simp add: ex_plain_facts(2))
  note g = format_excel_file_bodega_fill[of ex_plain, THEN conjunct2, THEN conjunct2, THEN mp, OF h', rule_format]
  have 1: "cell_fill (cells (format_excel_file ex_sheet) 2 3) = Some light_blue"
    by (simp add: f ex_sheet_dims ex_sheet_cvalue ex_values_def)
  have 2: "cell_fill (cells (format_excel_file ex_sheet) 3 3) = Some light_green"
    by (simp add: f ex_sheet_dims ex_sheet_cvalue ex_values_def)
  have 3: "cell_fill (cells (format_excel_file ex_sheet) 4 3) = None"
    by (simp add: f ex_sheet_dims ex_sheet_cvalue ex_values_def ex_sheet_fill)
  have 4: "cell_fill (cells (format_excel_file ex_sheet) 1 3) = None"
    by (simp add: f ex_sheet_fill)
  have 5: "cell_fill (cells (format_excel_file ex_sheet) 2 1) = None"
    by (simp add: f ex_sheet_fill)
  have 6: "cell_fill (cells (format_excel_file ex_plain) 2 3) = None"
    by (simp add: g ex_plain_facts ex_sheet_fill)
  have "\<exists>c. 1 \<le> c \<and> c \<le> max_column ex_sheet \<and> cvalue (cells ex_sheet 1 c) = VStr ''Bodega''"
    using h by blast
  note e = format_excel_file_bodega_fill[of ex_sheet, THEN conjunct2, THEN conjunct1, THEN mp, OF this]
  from 1 2 3 4 5 6 e show ?thesis by (intro conjI)
qed


end
